theory Spec2Isabelle
  imports Complex_Main
begin

section \<open>Data model of the EnrichmentTable component\<close>

text \<open>
  The component keeps its state in React state cells. The model is one record holding
  every cell a handler reads or writes; a handler is a function from the record to the
  updated record. Readings of the environment (\<open>Date.now()\<close>, \<open>Math.random()\<close>) are
  arguments of the handler that takes them.
\<close>

subsection \<open>JavaScript values, rows and fields\<close>

text \<open>A CSV row is an object with string values; the list is its \<open>Object.entries\<close> order.\<close>

type_synonym csv_row = "(string \<times> string) list"

datatype js_value =
    VUndefined
  | VNull
  | VBool bool
  | VNum rat
  | VStr string
  | VArr "string list"

text \<open>JavaScript truthiness, as tested by \<open>if (enrichment.value)\<close>.\<close>

fun truthy :: "js_value \<Rightarrow> bool" where
  "truthy VUndefined = False"
| "truthy VNull = False"
| "truthy (VBool b) = b"
| "truthy (VNum q) = (q \<noteq> 0)"
| "truthy (VStr s) = (s \<noteq> [])"
| "truthy (VArr xs) = True"

record enrichment_field =
  name :: string
  displayName :: string
  ftype :: string

record source_context =
  url :: string
  snippet :: string

record field_enrichment =
  fvalue :: js_value
  confidence :: "rat option"
  source :: "string option"
  sourceContext :: "source_context list option"

datatype row_status = Pending | Processing | Completed | Skipped | Error

text \<open>
  \<open>enrichments\<close> is an object keyed by field name; the list is its \<open>Object.entries\<close>
  order. \<open>originalData\<close> is \<open>rows[rowIndex]\<close>, which is undefined out of range.
\<close>

record row_result =
  rowIndex :: int
  originalData :: "csv_row option"
  enrichments :: "(string \<times> field_enrichment) list"
  rstatus :: row_status
  rerror :: "string option"

subsection \<open>The JavaScript \<open>Map\<close>, in insertion order\<close>

definition map_get :: "'k \<Rightarrow> ('k \<times> 'v) list \<Rightarrow> 'v option" where
  "map_get k m = map_of m k"

definition map_has :: "'k \<Rightarrow> ('k \<times> 'v) list \<Rightarrow> bool" where
  "map_has k m = (map_of m k \<noteq> None)"

text \<open>\<open>Map.set\<close> keeps the position of a key that is present and appends a new key.\<close>

fun map_set :: "'k \<Rightarrow> 'v \<Rightarrow> ('k \<times> 'v) list \<Rightarrow> ('k \<times> 'v) list" where
  "map_set k v [] = [(k, v)]"
| "map_set k v (p # ps) = (if fst p = k then (k, v) # ps else p # map_set k v ps)"

definition map_size :: "('k \<times> 'v) list \<Rightarrow> nat" where
  "map_size m = length m"

subsection \<open>Messages of the shared log\<close>

text \<open>
  The \<open>id\<close> of a message is a template string over the clock and, for some writers, a
  random number; the constructors keep the parts of each template.
\<close>

datatype message_id =
    IdComplete int
  | IdProgress int rat
  | IdUser int
  | IdStatus int rat
  | IdAssistant int
  | IdError int

record chat_message =
  mid :: message_id
  message :: string
  mtype :: string
  timestamp :: int
  mrowIndex :: "int option"
  sourceUrl :: "string option"

subsection \<open>Component properties and state\<close>

record props =
  rows :: "csv_row list"
  fieldsP :: "enrichment_field list"
  emailColumn :: "string option"

datatype session_status = Idle | SProcessing | SCompleted | SCancelled

text \<open>
  \<open>results\<close> and \<open>rowDataArrivalTime\<close> are Maps keyed by rowIndex. A member of
  \<open>cellsShown\<close> is the string made of a rowIndex, a dash and a field name, kept as the
  pair. \<open>timers\<close> holds the callbacks scheduled with \<open>setTimeout\<close> by the \<open>result\<close>
  case that have not run yet: the time each is due and the row it reveals.
\<close>

record table_state =
  results :: "(int \<times> row_result) list"
  status :: session_status
  currentRow :: int
  sessionId :: "string option"
  agentMessages :: "chat_message list"
  chatQueryId :: "(int \<times> rat) option"
  isChatProcessing :: bool
  rowDataArrivalTime :: "(int \<times> int) list"
  cellsShown :: "(int \<times> string) set"
  timers :: "(int \<times> int) list"

definition initial_state :: table_state where
  "initial_state =
     \<lparr>results = [], status = Idle, currentRow = -1, sessionId = None,
      agentMessages = [], chatQueryId = None, isChatProcessing = False,
      rowDataArrivalTime = [], cellsShown = {}, timers = []\<rparr>"

section \<open>The enrichment stream\<close>

subsection \<open>Decoded events\<close>

datatype event =
    SessionEv "string option"
  | PendingEv int
  | ProcessingEv int
  | ResultEv row_result
  | CompleteEv
  | CancelledEv
  | ErrorEv string
  | AgentProgressEv string string "int option" "string option"

text \<open>\<open>rows[i]\<close>: undefined when \<open>i\<close> is not an index of the array.\<close>

definition rows_at :: "csv_row list \<Rightarrow> int \<Rightarrow> csv_row option" where
  "rows_at rs i = (if 0 \<le> i \<and> i < int (length rs) then Some (rs ! nat i) else None)"

text \<open>\<open>xs.slice(-n)\<close>: the last \<open>n\<close> elements, all of them when there are fewer.\<close>

definition slice_last :: "nat \<Rightarrow> 'a list \<Rightarrow> 'a list" where
  "slice_last n xs = drop (length xs - n) xs"

definition completion_text :: string where
  "completion_text = ''All enrichment tasks completed successfully''"

definition pending_result :: "props \<Rightarrow> int \<Rightarrow> row_result" where
  "pending_result P i =
     \<lparr>rowIndex = i, originalData = rows_at (rows P) i, enrichments = [],
      rstatus = Pending, rerror = None\<rparr>"

subsection \<open>The \<open>switch (data.type)\<close> of \<open>startEnrichment\<close>\<close>

fun handleEvent :: "props \<Rightarrow> int \<Rightarrow> rat \<Rightarrow> event \<Rightarrow> table_state \<Rightarrow> table_state" where
  "handleEvent P now rnd (SessionEv sid) st = st\<lparr>sessionId := sid\<rparr>"
| "handleEvent P now rnd (PendingEv i) st =
     st\<lparr>results :=
          (if \<not> map_has i (results st) then map_set i (pending_result P i) (results st)
           else results st)\<rparr>"
| "handleEvent P now rnd (ProcessingEv i) st =
     st\<lparr>currentRow := i,
        results :=
          (case map_get i (results st) of
             Some existing \<Rightarrow> map_set i (existing\<lparr>rstatus := Processing\<rparr>) (results st)
           | None \<Rightarrow> results st)\<rparr>"
| "handleEvent P now rnd (ResultEv r) st =
     st\<lparr>results := map_set (rowIndex r) r (results st),
        rowDataArrivalTime := map_set (rowIndex r) now (rowDataArrivalTime st),
        timers := timers st @ [(now + 2500, rowIndex r)]\<rparr>"
| "handleEvent P now rnd CompleteEv st =
     st\<lparr>status := SCompleted,
        agentMessages :=
          (if list_ex (\<lambda>msg. message msg = completion_text) (agentMessages st)
           then agentMessages st
           else agentMessages st @
             [\<lparr>mid = IdComplete now, message = completion_text, mtype = ''success'',
               timestamp = now, mrowIndex = None, sourceUrl = None\<rparr>])\<rparr>"
| "handleEvent P now rnd CancelledEv st = st\<lparr>status := SCancelled\<rparr>"
| "handleEvent P now rnd (ErrorEv e) st = st\<lparr>status := SCompleted\<rparr>"
| "handleEvent P now rnd (AgentProgressEv msg ty ri su) st =
     st\<lparr>agentMessages :=
          slice_last 500 (agentMessages st @
            [\<lparr>mid = IdProgress now rnd, message = msg, mtype = ty,
              timestamp = now, mrowIndex = ri, sourceUrl = su\<rparr>])\<rparr>"

text \<open>
  A decoded line of the stream with the clock and random readings its handler takes.
\<close>

type_synonym timed_event = "int \<times> rat \<times> event"

definition handleTimed :: "props \<Rightarrow> table_state \<Rightarrow> timed_event \<Rightarrow> table_state" where
  "handleTimed P st te = (case te of (now, rnd, ev) \<Rightarrow> handleEvent P now rnd ev st)"

subsection \<open>The read loop of \<open>startEnrichment\<close>\<close>

text \<open>
  A chunk of the stream is split into lines. A line that does not start with
  \<open>data: \<close>, whose JSON does not parse or whose type no case matches changes nothing
  (\<open>None\<close>); any other line is a decoded event. The stream is a list of chunks and the
  way it ends: the reader reports done, or a read throws. A request that throws, a
  response that is not ok and a response without a body all throw before the loop.
\<close>

datatype stream_end = Done | ReadFailed

datatype enrich_response =
    OpenFailed
  | Opened "timed_event option list list" stream_end

definition handleLine :: "props \<Rightarrow> table_state \<Rightarrow> timed_event option \<Rightarrow> table_state" where
  "handleLine P st l = (case l of None \<Rightarrow> st | Some te \<Rightarrow> handleTimed P st te)"

definition handleChunk :: "props \<Rightarrow> table_state \<Rightarrow> timed_event option list \<Rightarrow> table_state" where
  "handleChunk P st c = foldl (handleLine P) st c"

definition startEnrichment :: "props \<Rightarrow> enrich_response \<Rightarrow> table_state \<Rightarrow> table_state" where
  "startEnrichment P resp st =
     (let st1 = st\<lparr>status := SProcessing\<rparr> in
      case resp of
        OpenFailed \<Rightarrow> st1\<lparr>status := SCompleted\<rparr>
      | Opened chunks e \<Rightarrow>
          (let st2 = foldl (handleChunk P) st1 chunks in
           case e of
             Done \<Rightarrow> st2
           | ReadFailed \<Rightarrow> st2\<lparr>status := SCompleted\<rparr>))"

text \<open>The events of a stream, in the order the loop handles them.\<close>

fun line_events :: "timed_event option list \<Rightarrow> event list" where
  "line_events [] = []"
| "line_events (None # ls) = line_events ls"
| "line_events (Some te # ls) = snd (snd te) # line_events ls"

definition stream_events :: "timed_event option list list \<Rightarrow> event list" where
  "stream_events chunks = concat (map line_events chunks)"

text \<open>The events whose case sets the status: they end the session.\<close>

fun terminal :: "event \<Rightarrow> bool" where
  "terminal CompleteEv = True"
| "terminal CancelledEv = True"
| "terminal (ErrorEv e) = True"
| "terminal ev = False"

subsection \<open>\<open>cancelEnrichment\<close>\<close>

text \<open>The outcome of a side-channel \<open>DELETE\<close> request: it returns, or \<open>fetch\<close> throws.\<close>

datatype side_channel = RequestReturned | NetworkError

text \<open>\<open>if (sessionId)\<close>: null, undefined and the empty string are falsy.\<close>

definition truthy_string :: "string option \<Rightarrow> bool" where
  "truthy_string s = (case s of None \<Rightarrow> False | Some t \<Rightarrow> t \<noteq> [])"

definition cancelEnrichment :: "side_channel \<Rightarrow> table_state \<Rightarrow> table_state" where
  "cancelEnrichment outcome st =
     (if truthy_string (sessionId st) then
        (let st1 = (case outcome of RequestReturned \<Rightarrow> st | NetworkError \<Rightarrow> st)
         in st1\<lparr>status := SCancelled, currentRow := -1\<rparr>)
      else st)"

section \<open>Reveal timing\<close>

subsection \<open>Double-precision arithmetic\<close>

text \<open>
  A JavaScript number is a double; the model holds its exact value as a rational. The
  result of a division or a multiplication is the exact result rounded to the nearest
  double, ties to the even significand. The values of this file stay far inside the
  normal range, so the exponent is not bounded and there are no subnormal numbers.
\<close>

fun bit_length :: "nat \<Rightarrow> nat" where
  "bit_length n = (if n = 0 then 0 else Suc (bit_length (n div 2)))"

declare bit_length.simps [simp del]

definition pow2 :: "int \<Rightarrow> rat" where
  "pow2 k = (if 0 \<le> k then 2 ^ nat k else 1 / 2 ^ nat (- k))"

text \<open>For a positive \<open>x\<close>, the exponent \<open>e\<close> with \<open>2^e \<le> x < 2^(e+1)\<close>.\<close>

definition binary_exponent :: "rat \<Rightarrow> int" where
  "binary_exponent x =
     (if 1 \<le> x then int (bit_length (nat \<lfloor>x\<rfloor>)) - 1
      else - int (bit_length (nat (\<lceil>1 / x\<rceil> - 1))))"

definition round_half_even :: "rat \<Rightarrow> int" where
  "round_half_even x =
     (let f = \<lfloor>x\<rfloor>; d = x - of_int f in
      if d < 1 / 2 then f
      else if 1 / 2 < d then f + 1
      else if even f then f else f + 1)"

text \<open>The nearest number with a significand of 53 bits.\<close>

definition round_double :: "rat \<Rightarrow> rat" where
  "round_double x =
     (if x = 0 then 0
      else (let a = \<bar>x\<bar>; e = binary_exponent a - 52;
                r = of_int (round_half_even (a / pow2 e)) * pow2 e
            in if x < 0 then - r else r))"

definition fl_div :: "rat \<Rightarrow> rat \<Rightarrow> rat" where
  "fl_div a b = round_double (a / b)"

definition fl_mul :: "rat \<Rightarrow> rat \<Rightarrow> rat" where
  "fl_mul a b = round_double (a * b)"

subsection \<open>The delay of a cell\<close>

text \<open>
  \<open>Math.min(300, totalRowAnimationTime / fields.length)\<close>. The quotient is \<open>Infinity\<close>
  for an empty field list, so that the minimum is 300.
\<close>

definition delayPerCell :: "nat \<Rightarrow> rat" where
  "delayPerCell n = (if n = 0 then 300 else min 300 (fl_div 2000 (of_nat n)))"

text \<open>\<open>if (!arrivalTime) return 0\<close>: an absent time and the time 0 are both falsy.\<close>

definition getCellAnimationDelay :: "props \<Rightarrow> table_state \<Rightarrow> int \<Rightarrow> nat \<Rightarrow> rat" where
  "getCellAnimationDelay P st ri fieldIndex =
     (case map_get ri (rowDataArrivalTime st) of
        None \<Rightarrow> 0
      | Some arrivalTime \<Rightarrow>
          if arrivalTime = 0 then 0
          else fl_mul (of_nat fieldIndex) (delayPerCell (length (fieldsP P))))"

subsection \<open>What the table body draws, and the timer\<close>

text \<open>The two flags the table body computes for a cell at clock reading \<open>now\<close>.\<close>

definition shouldAnimate :: "table_state \<Rightarrow> int \<Rightarrow> int \<Rightarrow> string \<Rightarrow> bool" where
  "shouldAnimate st now ri fname =
     (case map_get ri (rowDataArrivalTime st) of
        None \<Rightarrow> False
      | Some t \<Rightarrow> t \<noteq> 0 \<and> (ri, fname) \<notin> cellsShown st \<and> now - t < 2500)"

definition shouldShowData :: "props \<Rightarrow> table_state \<Rightarrow> int \<Rightarrow> int \<Rightarrow> nat \<Rightarrow> string \<Rightarrow> bool" where
  "shouldShowData P st now ri fieldIndex fname =
     ((ri, fname) \<in> cellsShown st \<or>
      (case map_get ri (rowDataArrivalTime st) of
         None \<Rightarrow> False
       | Some t \<Rightarrow> t \<noteq> 0 \<and> of_int (now - t) > getCellAnimationDelay P st ri fieldIndex))"

text \<open>
  The branch \<open>!shouldShowData && shouldAnimate\<close> of a cell whose row has a result that
  is not pending: the cell draws the placeholder instead of its data.
\<close>

definition cellHidden :: "props \<Rightarrow> table_state \<Rightarrow> int \<Rightarrow> int \<Rightarrow> nat \<Rightarrow> string \<Rightarrow> bool" where
  "cellHidden P st now ri fieldIndex fname =
     (\<not> shouldShowData P st now ri fieldIndex fname \<and> shouldAnimate st now ri fname)"

text \<open>The callback of the \<open>setTimeout\<close> of the \<open>result\<close> case, for row \<open>ri\<close>.\<close>

definition revealRow :: "props \<Rightarrow> table_state \<Rightarrow> int \<Rightarrow> table_state" where
  "revealRow P st ri =
     st\<lparr>cellsShown := cellsShown st \<union> set (map (\<lambda>f. (ri, name f)) (fieldsP P))\<rparr>"

text \<open>The timer service at clock reading \<open>now\<close>: every callback that is due runs once.\<close>

definition timerTick :: "props \<Rightarrow> int \<Rightarrow> table_state \<Rightarrow> table_state" where
  "timerTick P now st =
     foldl (revealRow P)
       (st\<lparr>timers := filter (\<lambda>tr. \<not> fst tr \<le> now) (timers st)\<rparr>)
       (map snd (filter (\<lambda>tr. fst tr \<le> now) (timers st)))"

section \<open>The conversational query\<close>

subsection \<open>Strings\<close>

text \<open>\<open>Array.prototype.join\<close>.\<close>

fun join :: "string \<Rightarrow> string list \<Rightarrow> string" where
  "join sep [] = []"
| "join sep [x] = x"
| "join sep (x # y # ys) = x @ sep @ join sep (y # ys)"

text \<open>A natural number in a template string: its decimal digits.\<close>

fun show_nat :: "nat \<Rightarrow> string" where
  "show_nat n =
     (if n < 10 then [''0123456789'' ! n]
      else show_nat (n div 10) @ [''0123456789'' ! (n mod 10)])"

declare show_nat.simps [simp del]

text \<open>A string or \<open>undefined\<close> in a template string.\<close>

definition template_string :: "string option \<Rightarrow> string" where
  "template_string s = (case s of None \<Rightarrow> ''undefined'' | Some t \<Rightarrow> t)"

subsection \<open>The serialized table snapshot\<close>

text \<open>
  Two parts of the JavaScript environment are parameters of the model: \<open>stringify\<close>
  gives the text \<open>JSON.stringify\<close> returns for a value, and \<open>inherited\<close> gives, for a
  key that \<open>Object.prototype\<close> has, the text a template string prints for that member
  (\<open>None\<close> for any other key).
\<close>

record js_env =
  stringify :: "js_value \<Rightarrow> string"
  inherited :: "string \<Rightarrow> string option"

text \<open>
  \<open>row[key]\<close> on a row, which is a plain object: the row's own value, or else the
  member of \<open>Object.prototype\<close> of that name, or else \<open>undefined\<close>.
\<close>

definition row_member :: "js_env \<Rightarrow> csv_row \<Rightarrow> string \<Rightarrow> string option" where
  "row_member env row k = (case map_of row k of Some v \<Rightarrow> Some v | None \<Rightarrow> inherited env k)"

text \<open>\<open>emailColumn ? row[emailColumn] : Object.values(row)[0]\<close>.\<close>

definition row_email :: "js_env \<Rightarrow> props \<Rightarrow> csv_row \<Rightarrow> string option" where
  "row_email env P row =
     (if truthy_string (emailColumn P) then row_member env row (the (emailColumn P))
      else (case row of [] \<Rightarrow> None | kv # _ \<Rightarrow> Some (snd kv)))"

text \<open>
  The entries of the object \<open>enrichedData\<close>. The assignment \<open>enrichedData[key] = value\<close>
  on a plain object creates no own property for the key \<open>__proto__\<close> (it runs the
  prototype setter), so \<open>Object.entries\<close> does not list that key.
\<close>

definition enrichedData :: "row_result \<Rightarrow> (string \<times> js_value) list" where
  "enrichedData result =
     map (\<lambda>ke. (fst ke, fvalue (snd ke)))
       (filter (\<lambda>ke. truthy (fvalue (snd ke)) \<and> fst ke \<noteq> ''__proto__'')
          (enrichments result))"

definition dataPoints :: "js_env \<Rightarrow> row_result \<Rightarrow> string" where
  "dataPoints env result =
     join '', '' (map (\<lambda>kv. fst kv @ '': '' @ stringify env (snd kv)) (enrichedData result))"

text \<open>The callback of \<open>rows.map\<close>: \<open>None\<close> is its \<open>null\<close>.\<close>

definition tableDataRow ::
  "js_env \<Rightarrow> props \<Rightarrow> (int \<times> row_result) list \<Rightarrow> nat \<times> csv_row \<Rightarrow> string option"
where
  "tableDataRow env P res ir =
     (case map_get (int (fst ir)) res of
        None \<Rightarrow> None
      | Some result \<Rightarrow>
          if rstatus result = Pending then None
          else Some (''Row '' @ show_nat (fst ir + 1) @ '' ('' @
                     template_string (row_email env P (snd ir)) @ ''): '' @
                     (if dataPoints env result \<noteq> [] then dataPoints env result
                      else ''No data enriched yet'')))"

text \<open>\<open>filter(Boolean)\<close> drops \<open>null\<close> and the empty string.\<close>

definition js_Boolean :: "string option \<Rightarrow> bool" where
  "js_Boolean x = (case x of None \<Rightarrow> False | Some s \<Rightarrow> s \<noteq> [])"

definition tableDataRows :: "js_env \<Rightarrow> props \<Rightarrow> (int \<times> row_result) list \<Rightarrow> string list" where
  "tableDataRows env P res =
     map the (filter js_Boolean (map (tableDataRow env P res) (List.enumerate 0 (rows P))))"

definition tableDataString :: "js_env \<Rightarrow> props \<Rightarrow> (int \<times> row_result) list \<Rightarrow> string" where
  "tableDataString env P res =
     (let tdr = tableDataRows env P res in
      if length tdr > 0
      then ''Enriched Data Table:'' @ [CHR 0x0A] @ join [CHR 0x0A] tdr @ [CHR 0x0A, CHR 0x0A] @
           ''Total: '' @ show_nat (length tdr) @ '' rows with data''
      else [])"

subsection \<open>The request\<close>

record chat_context =
  ctx_emailColumn :: "string option"
  ctx_fields :: "(string \<times> string) list"
  totalRows :: nat
  processedRows :: nat
  tableData :: string

record chat_request =
  question :: string
  req_context :: chat_context
  conversationHistory :: "(string \<times> string) list"
  req_sessionId :: "int \<times> rat"

text \<open>The history: \<open>filter\<close>, \<open>slice(-10)\<close>, \<open>map\<close> to a role and a content.\<close>

definition buildConversationHistory :: "chat_message list \<Rightarrow> (string \<times> string) list" where
  "buildConversationHistory msgs =
     map (\<lambda>msg. (if mtype msg = ''user'' then ''user'' else ''assistant'', message msg))
       (slice_last 10
          (filter (\<lambda>msg. mtype msg = ''user'' \<or> mtype msg = ''assistant'') msgs))"

text \<open>
  The body of the request. \<open>results\<close> and \<open>agentMessages\<close> are the values of the state
  cells that the handler's closure holds, that is the state \<open>st\<close> of the render that
  created the handler.
\<close>

definition chatRequest ::
  "js_env \<Rightarrow> props \<Rightarrow> table_state \<Rightarrow> int \<times> rat \<Rightarrow> string \<Rightarrow> chat_request"
where
  "chatRequest env P st queryId msg =
     \<lparr>question = msg,
      req_context =
        \<lparr>ctx_emailColumn = emailColumn P,
         ctx_fields = map (\<lambda>f. (name f, displayName f)) (fieldsP P),
         totalRows = length (rows P),
         processedRows = map_size (results st),
         tableData = tableDataString env P (results st)\<rparr>,
      conversationHistory = buildConversationHistory (agentMessages st),
      req_sessionId = queryId\<rparr>"

subsection \<open>\<open>handleChatMessage\<close> and \<open>handleStopQuery\<close>\<close>

definition userMessage :: "int \<Rightarrow> string \<Rightarrow> chat_message" where
  "userMessage now msg =
     \<lparr>mid = IdUser now, message = msg, mtype = ''user'', timestamp = now,
      mrowIndex = None, sourceUrl = None\<rparr>"

text \<open>The synchronous start of the handler: the query id, the flag, the user message.\<close>

definition chatSubmit :: "int \<Rightarrow> rat \<Rightarrow> string \<Rightarrow> table_state \<Rightarrow> table_state" where
  "chatSubmit now rnd msg st =
     st\<lparr>chatQueryId := Some (now, rnd),
        isChatProcessing := True,
        agentMessages := agentMessages st @ [userMessage now msg]\<rparr>"

datatype chat_event =
    StatusEv string "string option"
  | ResponseEv string
  | ChatErrorEv string

fun handleChatEvent :: "int \<Rightarrow> rat \<Rightarrow> chat_event \<Rightarrow> table_state \<Rightarrow> table_state" where
  "handleChatEvent now rnd (StatusEv msg su) st =
     st\<lparr>agentMessages := agentMessages st @
          [\<lparr>mid = IdStatus now rnd, message = msg, mtype = ''info'', timestamp = now,
            mrowIndex = None, sourceUrl = su\<rparr>]\<rparr>"
| "handleChatEvent now rnd (ResponseEv msg) st =
     st\<lparr>agentMessages := agentMessages st @
          [\<lparr>mid = IdAssistant now, message = msg, mtype = ''assistant'', timestamp = now,
            mrowIndex = None, sourceUrl = None\<rparr>]\<rparr>"
| "handleChatEvent now rnd (ChatErrorEv msg) st =
     st\<lparr>agentMessages := agentMessages st @
          [\<lparr>mid = IdError now, message = msg, mtype = ''warning'', timestamp = now,
            mrowIndex = None, sourceUrl = None\<rparr>]\<rparr>"

text \<open>The \<open>catch\<close> block, entered at clock reading \<open>now\<close>.\<close>

definition chatFailure :: "int \<Rightarrow> table_state \<Rightarrow> table_state" where
  "chatFailure now st =
     st\<lparr>agentMessages := agentMessages st @
          [\<lparr>mid = IdError now,
            message = ''Failed to process your question. Please try again.'',
            mtype = ''warning'', timestamp = now, mrowIndex = None, sourceUrl = None\<rparr>]\<rparr>"

text \<open>The \<open>finally\<close> block.\<close>

definition chatFinally :: "table_state \<Rightarrow> table_state" where
  "chatFinally st = st\<lparr>isChatProcessing := False, chatQueryId := None\<rparr>"

type_synonym timed_chat_event = "int \<times> rat \<times> chat_event"

datatype chat_end = ChatDone | ChatReadFailed int

datatype chat_response =
    ChatOpenFailed int
  | ChatOpened "timed_chat_event option list list" chat_end

definition handleChatLine :: "table_state \<Rightarrow> timed_chat_event option \<Rightarrow> table_state" where
  "handleChatLine st l =
     (case l of None \<Rightarrow> st | Some (now, rnd, ev) \<Rightarrow> handleChatEvent now rnd ev st)"

text \<open>
  The whole handler, run without another handler in between: the request it sends and
  the state it leaves.
\<close>

definition handleChatMessage ::
  "js_env \<Rightarrow> props \<Rightarrow> int \<Rightarrow> rat \<Rightarrow> string \<Rightarrow> chat_response \<Rightarrow> table_state
     \<Rightarrow> chat_request \<times> table_state"
where
  "handleChatMessage env P now rnd msg resp st =
     (let st1 = chatSubmit now rnd msg st;
          request = chatRequest env P st (now, rnd) msg;
          st2 = (case resp of
                   ChatOpenFailed t \<Rightarrow> chatFailure t st1
                 | ChatOpened chunks e \<Rightarrow>
                     (let st' = foldl (\<lambda>s c. foldl handleChatLine s c) st1 chunks in
                      case e of
                        ChatDone \<Rightarrow> st'
                      | ChatReadFailed t \<Rightarrow> chatFailure t st'))
      in (request, chatFinally st2))"

definition handleStopQuery :: "side_channel \<Rightarrow> table_state \<Rightarrow> table_state" where
  "handleStopQuery outcome st =
     (if chatQueryId st \<noteq> None then
        (let st1 = (case outcome of RequestReturned \<Rightarrow> st | NetworkError \<Rightarrow> st)
         in st1\<lparr>isChatProcessing := False, chatQueryId := None\<rparr>)
      else st)"

section \<open>Interleaved runs of the handlers\<close>

text \<open>
  The handlers run one at a time, in any order: a decoded event of the enrichment
  stream, the timer service, a cancellation, and the steps of a conversational query.
\<close>

datatype action =
    StreamEvent int rat event
  | TimerTick int
  | CancelEnrichment side_channel
  | ChatSubmit int rat string
  | ChatEvent int rat chat_event
  | ChatFailure int
  | ChatFinally
  | StopQuery side_channel

fun step :: "props \<Rightarrow> table_state \<Rightarrow> action \<Rightarrow> table_state" where
  "step P st (StreamEvent now rnd ev) = handleEvent P now rnd ev st"
| "step P st (TimerTick now) = timerTick P now st"
| "step P st (CancelEnrichment outcome) = cancelEnrichment outcome st"
| "step P st (ChatSubmit now rnd msg) = chatSubmit now rnd msg st"
| "step P st (ChatEvent now rnd ev) = handleChatEvent now rnd ev st"
| "step P st (ChatFailure now) = chatFailure now st"
| "step P st ChatFinally = chatFinally st"
| "step P st (StopQuery outcome) = handleStopQuery outcome st"

definition run :: "props \<Rightarrow> table_state \<Rightarrow> action list \<Rightarrow> table_state" where
  "run P st acts = foldl (step P) st acts"

text \<open>
  The clock reading an action takes, if it takes one. A reading of \<open>Date.now()\<close> is a
  number of milliseconds since 1970: on a running system it is positive, and all that
  \<open>real_clocks\<close> asks is that no reading is 0.
\<close>

fun action_clock :: "action \<Rightarrow> int option" where
  "action_clock (StreamEvent now rnd ev) = Some now"
| "action_clock (TimerTick now) = Some now"
| "action_clock (ChatSubmit now rnd msg) = Some now"
| "action_clock (ChatEvent now rnd ev) = Some now"
| "action_clock (ChatFailure now) = Some now"
| "action_clock a = None"

definition real_clocks :: "action list \<Rightarrow> bool" where
  "real_clocks acts =
     list_all (\<lambda>a. case action_clock a of None \<Rightarrow> True | Some t \<Rightarrow> t \<noteq> 0) acts"

section \<open>Sample inputs\<close>

text \<open>Two rows, two requested fields, the email column named.\<close>

definition P0 :: props where
  "P0 = \<lparr>rows = [[(''email'', ''a@x.io'')], [(''email'', ''b@y.io'')]],
          fieldsP = [\<lparr>name = ''company'', displayName = ''Company'', ftype = ''string''\<rparr>,
                     \<lparr>name = ''industry'', displayName = ''Industry'', ftype = ''string''\<rparr>],
          emailColumn = Some ''email''\<rparr>"

definition fe :: "js_value \<Rightarrow> field_enrichment" where
  "fe v = \<lparr>fvalue = v, confidence = None, source = None, sourceContext = None\<rparr>"

text \<open>A result for row 0 with the given enrichments and status.\<close>

definition res0 :: "(string \<times> field_enrichment) list \<Rightarrow> row_status \<Rightarrow> row_result" where
  "res0 es s =
     \<lparr>rowIndex = 0, originalData = Some [(''email'', ''a@x.io'')], enrichments = es,
      rstatus = s, rerror = None\<rparr>"

text \<open>Four requested fields.\<close>

definition P4 :: props where
  "P4 = \<lparr>rows = [[(''email'', ''a@x.io'')]],
          fieldsP = [\<lparr>name = ''company'', displayName = ''Company'', ftype = ''string''\<rparr>,
                     \<lparr>name = ''industry'', displayName = ''Industry'', ftype = ''string''\<rparr>,
                     \<lparr>name = ''employees'', displayName = ''Employees'', ftype = ''string''\<rparr>,
                     \<lparr>name = ''isPublic'', displayName = ''Public'', ftype = ''boolean''\<rparr>],
          emailColumn = Some ''email''\<rparr>"

text \<open>Five rows, no email column named.\<close>

definition P5 :: props where
  "P5 = \<lparr>rows = [[(''email'', ''a@x.io'')], [(''email'', ''b@y.io'')], [(''email'', ''c@z.io'')],
                  [(''email'', ''d@u.io'')], [(''email'', ''e@v.io'')]],
          fieldsP = [\<lparr>name = ''company'', displayName = ''Company'', ftype = ''string''\<rparr>],
          emailColumn = None\<rparr>"

definition result_at ::
  "int \<Rightarrow> (string \<times> field_enrichment) list \<Rightarrow> row_status \<Rightarrow> row_result"
where
  "result_at i es s =
     \<lparr>rowIndex = i, originalData = None, enrichments = es, rstatus = s, rerror = None\<rparr>"

text \<open>All five rows queued, then results for rows 0 and 1.\<close>

definition st5 :: table_state where
  "st5 = run P5 initial_state
     [StreamEvent 1 0 (PendingEv 0), StreamEvent 1 0 (PendingEv 1), StreamEvent 1 0 (PendingEv 2),
      StreamEvent 1 0 (PendingEv 3), StreamEvent 1 0 (PendingEv 4),
      StreamEvent 2 0 (ResultEv (result_at 0 [(''company'', fe (VStr ''X''))] Completed)),
      StreamEvent 3 0 (ResultEv (result_at 1 [] Skipped))]"

text \<open>A completed result for row 0 whose values are all falsy.\<close>

definition falsy_result :: row_result where
  "falsy_result =
     res0 [(''company'', fe (VStr [])), (''employees'', fe (VNum 0)),
           (''isPublic'', fe (VBool False)), (''founder'', fe VNull)] Completed"

text \<open>A completed result for row 0 with two truthy values and two falsy ones.\<close>

definition mixed_result :: row_result where
  "mixed_result =
     res0 [(''company'', fe (VStr ''X'')), (''employees'', fe (VNum 0)),
           (''industry'', fe (VStr [])), (''isPublic'', fe (VBool True))] Completed"

text \<open>The states after the one \<open>result\<close> event that carries each of them.\<close>

definition st_mixed :: table_state where
  "st_mixed = handleEvent P0 1 0 (ResultEv mixed_result) initial_state"

definition st_falsy :: table_state where
  "st_falsy = handleEvent P0 1 0 (ResultEv falsy_result) initial_state"

text \<open>An \<open>agent_progress\<close> event with the given text, and the message it appends.\<close>

definition progress_ev :: "string \<Rightarrow> action" where
  "progress_ev txt = StreamEvent 1 0 (AgentProgressEv txt ''info'' (Some 0) None)"

definition progress_msg :: "string \<Rightarrow> chat_message" where
  "progress_msg txt =
     \<lparr>mid = IdProgress 1 0, message = txt, mtype = ''info'', timestamp = 1,
      mrowIndex = Some 0, sourceUrl = None\<rparr>"

text \<open>
  A sample environment. \<open>stringify_sample\<close> is the JSON text of a string without a
  character to escape, of a boolean, of \<open>null\<close> and of an array of such strings; it is
  left unspecified on the other values, which the sample inputs never serialize.
  \<open>inherited_sample\<close> prints the members of \<open>Object.prototype\<close> as V8 does.
\<close>

fun stringify_sample :: "js_value \<Rightarrow> string" where
  "stringify_sample (VStr s) = [CHR 0x22] @ s @ [CHR 0x22]"
| "stringify_sample (VBool b) = (if b then ''true'' else ''false'')"
| "stringify_sample (VArr xs) =
     ''['' @ join '','' (map (\<lambda>s. [CHR 0x22] @ s @ [CHR 0x22]) xs) @ '']''"
| "stringify_sample VNull = ''null''"

definition inherited_sample :: "string \<Rightarrow> string option" where
  "inherited_sample k =
     (if k = ''__proto__'' then Some ''[object Object]''
      else if k \<in> set [''constructor'', ''hasOwnProperty'', ''isPrototypeOf'',
             ''propertyIsEnumerable'', ''toLocaleString'', ''toString'', ''valueOf'',
             ''__defineGetter__'', ''__defineSetter__'', ''__lookupGetter__'',
             ''__lookupSetter__'']
      then Some (''function '' @ (if k = ''constructor'' then ''Object'' else k) @
                 ''() { [native code] }'')
      else None)"

definition env_sample :: js_env where
  "env_sample = \<lparr>stringify = stringify_sample, inherited = inherited_sample\<rparr>"

section \<open>Quantities the properties speak of\<close>

text \<open>The number of log entries whose message is the completion notice text.\<close>

definition notice_count :: "table_state \<Rightarrow> nat" where
  "notice_count st =
     length (filter (\<lambda>msg. message msg = completion_text) (agentMessages st))"

text \<open>Every cell of row \<open>r\<close> is in \<open>cellsShown\<close>.\<close>

definition row_shown :: "props \<Rightarrow> int \<Rightarrow> table_state \<Rightarrow> bool" where
  "row_shown P r st = list_all (\<lambda>f. (r, name f) \<in> cellsShown st) (fieldsP P)"

text \<open>
  The indices of the rows that have a stored result whose status is not \<open>pending\<close>,
  in row order: the rows the specification counts and lists.
\<close>

definition spec_nonPendingRows :: "props \<Rightarrow> (int \<times> row_result) list \<Rightarrow> nat list" where
  "spec_nonPendingRows P res =
     filter (\<lambda>i. case map_get (int i) res of None \<Rightarrow> False | Some r \<Rightarrow> rstatus r \<noteq> Pending)
       [0..<length (rows P)]"

section \<open>Properties of the Map model\<close>

lemma map_get_set_same: "map_get k (map_set k v m) = Some v"
  by (induction m) (auto simp: map_get_def)

lemma map_get_set_other: "k' \<noteq> k \<Longrightarrow> map_get k' (map_set k v m) = map_get k' m"
  by (induction m) (auto simp: map_get_def)

lemma map_has_set: "map_has k' (map_set k v m) = (k' = k \<or> map_has k' m)"
  by (induction m) (auto simp: map_has_def)

lemma map_set_keys_distinct:
  "distinct (map fst m) \<Longrightarrow> distinct (map fst (map_set k v m))"
proof (induction m)
  case Nil
  show ?case by simp
next
  case (Cons p ps)
  have "fst ` set (map_set k v ps) = insert k (fst ` set ps)"
    by (induction ps) auto
  with Cons show ?case by auto
qed

lemma map_set_absent: "\<not> map_has k m \<Longrightarrow> map_set k v m = m @ [(k, v)]"
proof (induction m)
  case Nil
  show ?case by simp
next
  case (Cons p ps)
  then show ?case by (cases p) (auto simp: map_has_def split: if_splits)
qed

section \<open>Parts of the state a handler leaves alone\<close>

lemma side_channel_same [simp]:
  "(case outcome of RequestReturned \<Rightarrow> s | NetworkError \<Rightarrow> s) = s"
  by (cases outcome) simp_all

lemma revealRows_results: "results (foldl (revealRow P) st rs) = results st"
  by (induction rs arbitrary: st) (simp_all add: revealRow_def)

lemma timerTick_results: "results (timerTick P now st) = results st"
  by (simp add: timerTick_def revealRows_results)

lemma handleChatEvent_results: "results (handleChatEvent now rnd ev st) = results st"
  by (cases ev) simp_all

lemma handleEvent_keeps_keys:
  "map_has i (results st) \<Longrightarrow> map_has i (results (handleEvent P now rnd ev st))"
  by (cases ev) (auto simp: map_has_set map_get_def split: option.splits)

lemma step_keeps_keys: "map_has i (results st) \<Longrightarrow> map_has i (results (step P st a))"
  by (cases a)
     (simp_all add: handleEvent_keeps_keys timerTick_results handleChatEvent_results
        cancelEnrichment_def chatSubmit_def chatFailure_def chatFinally_def
        handleStopQuery_def Let_def)

lemma run_keeps_keys: "map_has i (results st) \<Longrightarrow> map_has i (results (run P st acts))"
  unfolding run_def by (induction acts arbitrary: st) (simp_all add: step_keeps_keys)

text \<open>
  The list of a Map reached from the initial state holds each key once, so that its
  length is the \<open>size\<close> of the Map.
\<close>

lemma handleEvent_keys_distinct:
  "distinct (map fst (results st)) \<Longrightarrow>
   distinct (map fst (results (handleEvent P now rnd ev st)))"
  by (cases ev) (auto simp: map_set_keys_distinct split: option.splits)

lemma step_keys_distinct:
  "distinct (map fst (results st)) \<Longrightarrow> distinct (map fst (results (step P st a)))"
  by (cases a)
     (simp_all add: handleEvent_keys_distinct timerTick_results handleChatEvent_results
        cancelEnrichment_def chatSubmit_def chatFailure_def chatFinally_def
        handleStopQuery_def Let_def)

lemma run_keys_distinct:
  "distinct (map fst (results st)) \<Longrightarrow> distinct (map fst (results (run P st acts)))"
  unfolding run_def by (induction acts arbitrary: st) (simp_all add: step_keys_distinct)

lemma reachable_size_counts_keys:
  "map_size (results (run P initial_state acts))
     = card (fst ` set (results (run P initial_state acts)))"
proof -
  have "distinct (map fst (results (run P initial_state acts)))"
    by (rule run_keys_distinct) (simp add: initial_state_def)
  then show ?thesis
    by (metis map_size_def distinct_card length_map set_map)
qed

lemma revealRows_cellsShown:
  "cellsShown (foldl (revealRow P) st rs)
     = cellsShown st \<union> (\<Union>r \<in> set rs. (\<lambda>f. (r, name f)) ` set (fieldsP P))"
  by (induction rs arbitrary: st) (auto simp: revealRow_def)

lemma revealRows_timers: "timers (foldl (revealRow P) st rs) = timers st"
  by (induction rs arbitrary: st) (simp_all add: revealRow_def)

lemma timerTick_cellsShown:
  "cellsShown (timerTick P now st)
     = cellsShown st \<union>
       (\<Union>tr \<in> {tr \<in> set (timers st). fst tr \<le> now}.
          (\<lambda>f. (snd tr, name f)) ` set (fieldsP P))"
  by (auto simp: timerTick_def revealRows_cellsShown)

lemma timerTick_timers:
  "timers (timerTick P now st) = filter (\<lambda>tr. \<not> fst tr \<le> now) (timers st)"
  by (simp add: timerTick_def revealRows_timers)

lemma handleEvent_cellsShown: "cellsShown (handleEvent P now rnd ev st) = cellsShown st"
  by (cases ev) simp_all

lemma handleEvent_timers: "set (timers st) \<subseteq> set (timers (handleEvent P now rnd ev st))"
  by (cases ev) auto

lemma handleChatEvent_cellsShown: "cellsShown (handleChatEvent now rnd ev st) = cellsShown st"
  by (cases ev) simp_all

lemma handleChatEvent_timers: "timers (handleChatEvent now rnd ev st) = timers st"
  by (cases ev) simp_all

lemma nonterminal_keeps_status:
  "\<not> terminal ev \<Longrightarrow> status (handleEvent P now rnd ev st) = status st"
  by (cases ev) simp_all

section \<open>The Result Store\<close>

text \<open>
  Claim C1. Handling a \<open>result\<close> event stores the payload under its rowIndex in place
  of whatever was stored there: looking the rowIndex up afterwards gives the payload
  itself, so its enrichments are the payload's and no field of the prior entry is left;
  every other rowIndex keeps its entry. The arrival time of the rowIndex is the clock
  reading of the handler.
\<close>

theorem result_replaces_entry:
  "results (handleEvent P now rnd (ResultEv r) st) = map_set (rowIndex r) r (results st)
   \<and> map_get k (results (handleEvent P now rnd (ResultEv r) st)) =
       (if k = rowIndex r then Some r else map_get k (results st))
   \<and> map_option enrichments
         (map_get (rowIndex r) (results (handleEvent P now rnd (ResultEv r) st)))
       = Some (enrichments r)
   \<and> map_get (rowIndex r) (rowDataArrivalTime (handleEvent P now rnd (ResultEv r) st))
       = Some now"
  by (simp add: map_get_set_same map_get_set_other)

text \<open>
  Row 0 holds a processing entry with a \<open>company\<close> field; the payload has only an
  \<open>industry\<close> field. Afterwards the entry is the payload and the arrival time is 7.
\<close>

theorem result_replaces_entry_witness:
  "map_get 0 (results (handleEvent P0 7 0
        (ResultEv (res0 [(''industry'', fe (VStr ''ai''))] Completed))
        (initial_state\<lparr>results := [(0, res0 [(''company'', fe (VStr ''X''))] Processing)]\<rparr>)))
     = Some (res0 [(''industry'', fe (VStr ''ai''))] Completed)
   \<and> map_get 0 (rowDataArrivalTime (handleEvent P0 7 0
        (ResultEv (res0 [(''industry'', fe (VStr ''ai''))] Completed))
        (initial_state\<lparr>results := [(0, res0 [(''company'', fe (VStr ''X''))] Processing)]\<rparr>)))
     = Some 7"
  using result_replaces_entry [of P0 7 0 "res0 [(''industry'', fe (VStr ''ai''))] Completed"
      "initial_state\<lparr>results := [(0, res0 [(''company'', fe (VStr ''X''))] Processing)]\<rparr>" 0]
  by (simp add: res0_def)

text \<open>
  Claim C2. A \<open>pending\<close> event creates an entry only when its rowIndex has none: the
  entry is appended, with status \<open>pending\<close> and no enrichments. After one \<open>pending\<close>
  event for a rowIndex, and whatever handlers have run since (other events of the
  stream, timers, cancellation, queries), a further \<open>pending\<close> event for that rowIndex
  leaves the store as it is.
\<close>

theorem pending_only_first_creates:
  "results (handleEvent P now rnd (PendingEv i) st) =
     (if map_has i (results st) then results st
      else results st @ [(i, pending_result P i)])
   \<and> rstatus (pending_result P i) = Pending \<and> enrichments (pending_result P i) = []
   \<and> results (handleEvent P now' rnd' (PendingEv i)
        (run P (handleEvent P now rnd (PendingEv i) st) acts))
       = results (run P (handleEvent P now rnd (PendingEv i) st) acts)"
proof -
  have "map_has i (results (handleEvent P now rnd (PendingEv i) st))"
    by (simp add: map_has_set)
  then have "map_has i (results (run P (handleEvent P now rnd (PendingEv i) st) acts))"
    by (rule run_keeps_keys)
  then show ?thesis
    by (simp add: map_set_absent pending_result_def)
qed

text \<open>
  \<open>pending(0)\<close>, \<open>processing(0)\<close>, \<open>result(0, skipped)\<close>, \<open>pending(0)\<close>: the store
  holds the skipped result.
\<close>

theorem pending_only_first_creates_witness:
  "results (handleEvent P0 9 0 (PendingEv 0)
      (run P0 (handleEvent P0 1 0 (PendingEv 0) initial_state)
         [StreamEvent 2 0 (ProcessingEv 0), StreamEvent 3 0 (ResultEv (res0 [] Skipped))]))
     = [(0, res0 [] Skipped)]"
  using pending_only_first_creates [of P0 1 0 0 initial_state 9 0
      "[StreamEvent 2 0 (ProcessingEv 0), StreamEvent 3 0 (ResultEv (res0 [] Skipped))]"]
  by (simp add: run_def initial_state_def map_has_def map_get_def res0_def pending_result_def)


section \<open>The message log\<close>

lemma list_ex_filter_length: "list_ex Q xs = (1 \<le> length (filter Q xs))"
  by (induction xs) auto

lemma progress_enforces_cap:
  "agentMessages (handleEvent P now rnd (AgentProgressEv msg ty ri su) st)
     = slice_last 500 (agentMessages st @
         [\<lparr>mid = IdProgress now rnd, message = msg, mtype = ty,
           timestamp = now, mrowIndex = ri, sourceUrl = su\<rparr>])
   \<and> length (agentMessages (handleEvent P now rnd (AgentProgressEv msg ty ri su) st)) \<le> 500"
  by (simp add: slice_last_def)

lemma run_progress_below_cap:
  "length (agentMessages st) + n \<le> 500 \<Longrightarrow>
   agentMessages (run P st (replicate n (progress_ev txt)))
     = agentMessages st @ replicate n (progress_msg txt)"
proof (induction n arbitrary: st)
  case 0
  show ?case by (simp add: run_def)
next
  case (Suc n)
  have one: "agentMessages (step P st (progress_ev txt)) = agentMessages st @ [progress_msg txt]"
    using Suc.prems by (simp add: progress_ev_def progress_msg_def slice_last_def)
  have "agentMessages (run P (step P st (progress_ev txt)) (replicate n (progress_ev txt)))
          = agentMessages (step P st (progress_ev txt)) @ replicate n (progress_msg txt)"
    using Suc.prems by (intro Suc.IH) (simp add: one)
  then show ?case
    by (simp add: run_def one replicate_app_Cons_same)
qed

text \<open>
  Claim C3. The log is trimmed to its last 500 entries by the \<open>agent_progress\<close> case
  only (\<open>progress_enforces_cap\<close>). After 500 progress messages the log holds 500
  entries; a \<open>complete\<close> event, or a submitted query, then appends a further entry and
  the log holds 501.
\<close>

theorem log_exceeds_cap_after_complete:
  "length (agentMessages (run P0 initial_state (replicate 500 (progress_ev ''working'')))) = 500
   \<and> length (agentMessages (run P0 initial_state
        (replicate 500 (progress_ev ''working'') @ [StreamEvent 2 0 CompleteEv]))) = 501
   \<and> length (agentMessages (run P0 initial_state
        (replicate 500 (progress_ev ''working'') @ [ChatSubmit 2 0 ''How many rows?'']))) = 501"
proof -
  have log: "agentMessages (run P0 initial_state (replicate 500 (progress_ev ''working'')))
          = replicate 500 (progress_msg ''working'')"
    using run_progress_below_cap [of initial_state 500 P0 "''working''"]
    by (simp add: initial_state_def)
  have no_notice: "\<not> list_ex (\<lambda>msg. message msg = completion_text)
          (replicate 500 (progress_msg ''working''))"
    by (simp add: list_ex_iff progress_msg_def completion_text_def)
  have last_step: "\<And>a. run P0 initial_state (replicate 500 (progress_ev ''working'') @ [a])
          = step P0 (run P0 initial_state (replicate 500 (progress_ev ''working''))) a"
    by (simp add: run_def)
  show ?thesis
    unfolding last_step using no_notice by (simp add: log chatSubmit_def)
qed

text \<open>
  Claim C6, as the code has it. Handling a \<open>complete\<close> event a second time leaves the
  log as the first left it. After it, the number of entries with the notice text is the
  number before or 1, whichever is larger: exactly one when the log held at most one
  such entry, and as many as before when it held more (entries that already carry the
  text, whoever wrote them, are neither removed nor merged).
\<close>

theorem completion_notice_idempotent:
  "agentMessages (handleEvent P t2 r2 CompleteEv (handleEvent P t1 r1 CompleteEv st))
     = agentMessages (handleEvent P t1 r1 CompleteEv st)
   \<and> notice_count (handleEvent P t1 r1 CompleteEv st) = max 1 (notice_count st)
   \<and> notice_count (handleEvent P t2 r2 CompleteEv (handleEvent P t1 r1 CompleteEv st))
     = max 1 (notice_count st)"
proof (cases "list_ex (\<lambda>msg. message msg = completion_text) (agentMessages st)")
  case True
  then have "1 \<le> notice_count st"
    unfolding notice_count_def list_ex_filter_length .
  with True show ?thesis
    by (simp add: notice_count_def max_def)
next
  case False
  then have "notice_count st = 0"
    unfolding notice_count_def list_ex_filter_length by linarith
  with False show ?thesis
    by (simp add: notice_count_def)
qed

theorem completion_notice_idempotent_witness:
  "notice_count (handleEvent P0 2 0 CompleteEv (handleEvent P0 1 0 CompleteEv initial_state)) = 1"
  using completion_notice_idempotent [of P0 2 0 1 0 initial_state]
  by (simp add: notice_count_def initial_state_def)

text \<open>
  Two progress messages carry the notice text. After two \<open>complete\<close> events the log
  holds two entries with that text, not one.
\<close>

theorem completion_notice_counterexample:
  "notice_count (handleEvent P0 3 0 CompleteEv (handleEvent P0 2 0 CompleteEv
      (run P0 initial_state [progress_ev completion_text, progress_ev completion_text]))) \<noteq> 1"
  by (simp add: notice_count_def run_def initial_state_def progress_ev_def slice_last_def)

section \<open>The session controller\<close>

lemma chunk_keeps_status:
  "list_all (\<lambda>ev. \<not> terminal ev) (line_events c) \<Longrightarrow>
   status (handleChunk P st c) = status st"
proof (induction c arbitrary: st rule: line_events.induct)
  case 1
  show ?case by (simp add: handleChunk_def)
next
  case (2 ls)
  then show ?case by (simp add: handleChunk_def handleLine_def)
next
  case (3 te ls)
  obtain now rnd ev where te: "te = (now, rnd, ev)" by (cases te) auto
  from "3.prems" te have nt: "\<not> terminal ev"
    and rest: "list_all (\<lambda>ev. \<not> terminal ev) (line_events ls)"
    by simp_all
  have "status (handleChunk P (handleLine P st (Some te)) ls) = status (handleLine P st (Some te))"
    using rest by (rule "3.IH")
  also have "\<dots> = status st"
    using nt by (simp add: handleLine_def handleTimed_def te nonterminal_keeps_status)
  finally show ?case by (simp add: handleChunk_def)
qed

lemma chunks_keep_status:
  "list_all (\<lambda>ev. \<not> terminal ev) (stream_events chunks) \<Longrightarrow>
   status (foldl (handleChunk P) st chunks) = status st"
proof (induction chunks arbitrary: st)
  case Nil
  show ?case by simp
next
  case (Cons c chunks)
  from Cons.prems have
    c: "list_all (\<lambda>ev. \<not> terminal ev) (line_events c)"
    and cs: "list_all (\<lambda>ev. \<not> terminal ev) (stream_events chunks)"
    by (simp_all add: stream_events_def)
  show ?case
    using Cons.IH [OF cs, of "handleChunk P st c"] chunk_keeps_status [OF c, of P st]
    by simp
qed

text \<open>
  Claim C4. When the reader reports done and no \<open>complete\<close>, \<open>cancelled\<close> or \<open>error\<close>
  event was in the stream, \<open>startEnrichment\<close> leaves the status at \<open>processing\<close>: the
  loop is left by \<open>break\<close> and nothing after it sets the status.
\<close>

theorem end_of_stream_leaves_processing:
  "list_all (\<lambda>ev. \<not> terminal ev) (stream_events chunks) \<Longrightarrow>
   status (startEnrichment P (Opened chunks Done) st) = SProcessing"
  by (simp add: startEnrichment_def chunks_keep_status)

text \<open>A session event and a junk line, then a pending event and a result; then done.\<close>

theorem end_of_stream_leaves_processing_witness:
  "status (startEnrichment P0
      (Opened [[Some (1, 0, SessionEv (Some ''s1'')), None],
               [Some (2, 0, PendingEv 0), Some (3, 0, ResultEv (res0 [] Completed))]] Done)
      initial_state) = SProcessing"
  using end_of_stream_leaves_processing [of
      "[[Some (1, 0, SessionEv (Some ''s1'')), None],
        [Some (2, 0, PendingEv 0), Some (3, 0, ResultEv (res0 [] Completed))]]" P0 initial_state]
  by (simp add: stream_events_def)

text \<open>
  Claim C5, as the code has it. When a session id has been captured (it is not null and
  not empty), cancellation sets the status to \<open>cancelled\<close> and the current row to -1,
  whether the side-channel request returns or throws. When no session id has been
  captured, cancellation sends no request and changes nothing.
\<close>

theorem cancel_with_session_id:
  "(truthy_string (sessionId st) \<longrightarrow>
      status (cancelEnrichment outcome st) = SCancelled
      \<and> currentRow (cancelEnrichment outcome st) = -1)
   \<and> (\<not> truthy_string (sessionId st) \<longrightarrow> cancelEnrichment outcome st = st)
   \<and> cancelEnrichment NetworkError st = cancelEnrichment RequestReturned st"
  by (simp add: cancelEnrichment_def)

theorem cancel_with_session_id_witness:
  "status (cancelEnrichment NetworkError
      (handleEvent P0 1 0 (SessionEv (Some ''s1'')) (initial_state\<lparr>status := SProcessing\<rparr>)))
     = SCancelled
   \<and> cancelEnrichment NetworkError (initial_state\<lparr>status := SProcessing\<rparr>)
     = initial_state\<lparr>status := SProcessing\<rparr>"
  using cancel_with_session_id [of "handleEvent P0 1 0 (SessionEv (Some ''s1''))
      (initial_state\<lparr>status := SProcessing\<rparr>)" NetworkError]
    cancel_with_session_id [of "initial_state\<lparr>status := SProcessing\<rparr>" NetworkError]
  by (simp add: truthy_string_def initial_state_def cancelEnrichment_def)

text \<open>
  The controller is processing and no \<open>session\<close> event has arrived yet; the cancel
  request fails. The status is still \<open>processing\<close>.
\<close>

theorem cancel_without_session_id_counterexample:
  "status (initial_state\<lparr>status := SProcessing\<rparr>) = SProcessing
   \<and> status (cancelEnrichment NetworkError (initial_state\<lparr>status := SProcessing\<rparr>))
       \<noteq> SCancelled"
  by (simp add: cancelEnrichment_def truthy_string_def initial_state_def)

section \<open>The request of a conversational query\<close>

lemma enumerate_nth: "List.enumerate 0 xs = map (\<lambda>i. (i, xs ! i)) [0..<length xs]"
  by (rule nth_equalityI) (simp_all add: nth_enumerate_eq)

lemma tableDataRow_Boolean:
  "js_Boolean (tableDataRow env P res ir) =
     (case map_get (int (fst ir)) res of None \<Rightarrow> False | Some r \<Rightarrow> rstatus r \<noteq> Pending)"
  by (simp add: js_Boolean_def tableDataRow_def split: option.splits)

lemma tableDataRows_eq:
  "tableDataRows env P res =
     map (\<lambda>i. the (tableDataRow env P res (i, rows P ! i))) (spec_nonPendingRows P res)"
  by (simp add: tableDataRows_def spec_nonPendingRows_def enumerate_nth filter_map o_def
        tableDataRow_Boolean)

lemma join_Nil_iff:
  "list_all (\<lambda>x. x \<noteq> []) xs \<Longrightarrow> (join sep xs = []) = (xs = [])"
  by (induction sep xs rule: join.induct) simp_all

lemma dataPoints_kept:
  "dataPoints env result =
     join '', '' (map (\<lambda>ke. fst ke @ '': '' @ stringify env (fvalue (snd ke)))
       (filter (\<lambda>ke. truthy (fvalue (snd ke)) \<and> fst ke \<noteq> ''__proto__'') (enrichments result)))"
  by (simp add: dataPoints_def enrichedData_def o_def)

lemma dataPoints_Nil_iff:
  "(dataPoints env result = []) =
     (filter (\<lambda>ke. truthy (fvalue (snd ke)) \<and> fst ke \<noteq> ''__proto__'') (enrichments result) = [])"
  unfolding dataPoints_kept
  by (subst join_Nil_iff) (simp_all add: list_all_iff)

lemma tableDataRow_line:
  assumes "map_get (int i) res = Some result" and "rstatus result \<noteq> Pending"
  shows "tableDataRow env P res (i, row) =
     Some (''Row '' @ show_nat (i + 1) @ '' ('' @ template_string (row_email env P row) @ ''): '' @
       (if filter (\<lambda>ke. truthy (fvalue (snd ke)) \<and> fst ke \<noteq> ''__proto__'') (enrichments result) = []
        then ''No data enriched yet''
        else join '', '' (map (\<lambda>ke. fst ke @ '': '' @ stringify env (fvalue (snd ke)))
          (filter (\<lambda>ke. truthy (fvalue (snd ke)) \<and> fst ke \<noteq> ''__proto__'')
             (enrichments result)))))"
  using assms by (simp add: tableDataRow_def dataPoints_Nil_iff) (simp add: dataPoints_kept)

lemma nonPending_result:
  "i \<in> set (spec_nonPendingRows P res) \<Longrightarrow>
   \<exists>result. map_get (int i) res = Some result \<and> rstatus result \<noteq> Pending"
  by (auto simp: spec_nonPendingRows_def split: option.splits)

lemma tableDataString_lines:
  "tableDataString env P res =
     (if spec_nonPendingRows P res = [] then []
      else ''Enriched Data Table:'' @ [CHR 0x0A] @
           join [CHR 0x0A]
             (map (\<lambda>i. ''Row '' @ show_nat (i + 1) @ '' ('' @
                      template_string (row_email env P (rows P ! i)) @ ''): '' @
                      (if filter (\<lambda>ke. truthy (fvalue (snd ke)) \<and> fst ke \<noteq> ''__proto__'')
                            (enrichments (the (map_get (int i) res))) = []
                       then ''No data enriched yet''
                       else join '', '' (map (\<lambda>ke. fst ke @ '': '' @ stringify env (fvalue (snd ke)))
                         (filter (\<lambda>ke. truthy (fvalue (snd ke)) \<and> fst ke \<noteq> ''__proto__'')
                            (enrichments (the (map_get (int i) res)))))))
                (spec_nonPendingRows P res)) @
           [CHR 0x0A, CHR 0x0A] @ ''Total: '' @
           show_nat (length (spec_nonPendingRows P res)) @ '' rows with data'')"
proof -
  have lines: "tableDataRows env P res =
      map (\<lambda>i. ''Row '' @ show_nat (i + 1) @ '' ('' @
                      template_string (row_email env P (rows P ! i)) @ ''): '' @
                      (if filter (\<lambda>ke. truthy (fvalue (snd ke)) \<and> fst ke \<noteq> ''__proto__'')
                            (enrichments (the (map_get (int i) res))) = []
                       then ''No data enriched yet''
                       else join '', '' (map (\<lambda>ke. fst ke @ '': '' @ stringify env (fvalue (snd ke)))
                         (filter (\<lambda>ke. truthy (fvalue (snd ke)) \<and> fst ke \<noteq> ''__proto__'')
                            (enrichments (the (map_get (int i) res)))))))
        (spec_nonPendingRows P res)"
    unfolding tableDataRows_eq
  proof (rule map_cong [OF refl])
    fix i
    assume "i \<in> set (spec_nonPendingRows P res)"
    then obtain result where r: "map_get (int i) res = Some result" "rstatus result \<noteq> Pending"
      using nonPending_result by blast
    show "the (tableDataRow env P res (i, rows P ! i)) =
        ''Row '' @ show_nat (i + 1) @ '' ('' @
          template_string (row_email env P (rows P ! i)) @ ''): '' @
          (if filter (\<lambda>ke. truthy (fvalue (snd ke)) \<and> fst ke \<noteq> ''__proto__'')
                (enrichments (the (map_get (int i) res))) = []
           then ''No data enriched yet''
           else join '', '' (map (\<lambda>ke. fst ke @ '': '' @ stringify env (fvalue (snd ke)))
             (filter (\<lambda>ke. truthy (fvalue (snd ke)) \<and> fst ke \<noteq> ''__proto__'')
                (enrichments (the (map_get (int i) res))))))"
      by (simp only: tableDataRow_line [OF r] r option.sel)
  qed
  show ?thesis
    unfolding tableDataString_def Let_def lines by simp
qed

lemma st5_results:
  "results st5 =
     [(0, result_at 0 [(''company'', fe (VStr ''X''))] Completed), (1, result_at 1 [] Skipped),
      (2, pending_result P5 2), (3, pending_result P5 3), (4, pending_result P5 4)]"
  by (simp add: st5_def run_def initial_state_def map_has_def result_at_def)

lemma st5_nonPending: "spec_nonPendingRows P5 (results st5) = [0, 1]"
  by (simp add: st5_results spec_nonPendingRows_def P5_def map_get_def result_at_def
        pending_result_def upt_rec)

text \<open>
  Claim C7, as the code has it. In the context sent with a query, \<open>processedRows\<close> is
  the size of the Result Store, so every stored result counts, the \<open>pending\<close> ones too;
  \<open>totalRows\<close> is the number of rows. The table snapshot sent is empty when no row has
  a stored result that is not \<open>pending\<close>; otherwise it is the heading, one line for each
  row that has a stored result whose status is not \<open>pending\<close>, in row order and for no
  other row, and the total, which is the number of those rows. A line names the row by
  its number and email and lists the pairs kept from the row's enrichments.
\<close>

theorem context_counts_stored_results:
  fixes env :: js_env and P :: props and st :: table_state
  defines "kept \<equiv> \<lambda>i. filter (\<lambda>ke. truthy (fvalue (snd ke)) \<and> fst ke \<noteq> ''__proto__'')
                       (enrichments (the (map_get (int i) (results st))))"
  defines "line \<equiv> \<lambda>i. ''Row '' @ show_nat (i + 1) @ '' ('' @
                       template_string (row_email env P (rows P ! i)) @ ''): '' @
                       (if kept i = [] then ''No data enriched yet''
                        else join '', ''
                          (map (\<lambda>ke. fst ke @ '': '' @ stringify env (fvalue (snd ke))) (kept i)))"
  shows "processedRows (req_context (chatRequest env P st q msg)) = length (results st)
   \<and> totalRows (req_context (chatRequest env P st q msg)) = length (rows P)
   \<and> tableData (req_context (chatRequest env P st q msg)) =
       (if spec_nonPendingRows P (results st) = [] then []
        else ''Enriched Data Table:'' @ [CHR 0x0A] @
             join [CHR 0x0A] (map line (spec_nonPendingRows P (results st))) @
             [CHR 0x0A, CHR 0x0A] @ ''Total: '' @
             show_nat (length (spec_nonPendingRows P (results st))) @ '' rows with data'')"
  unfolding kept_def line_def
  using tableDataString_lines [of env P "results st"]
  by (simp add: chatRequest_def map_size_def)

text \<open>
  Five rows, all queued, results for rows 0 and 1: the snapshot has the lines of rows 0
  and 1 and the total 2, and \<open>processedRows\<close> is 5.
\<close>

theorem context_counts_stored_results_witness:
  "tableData (req_context
      (chatRequest env_sample P5 st5 (9, 0) ''How many rows are enriched?'')) =
     ''Enriched Data Table:'' @ [CHR 0x0A] @
     ''Row 1 (a@x.io): company: '' @ [CHR 0x22] @ ''X'' @ [CHR 0x22] @ [CHR 0x0A] @
     ''Row 2 (b@y.io): No data enriched yet'' @ [CHR 0x0A, CHR 0x0A] @
     ''Total: 2 rows with data''
   \<and> processedRows (req_context
        (chatRequest env_sample P5 st5 (9, 0) ''How many rows are enriched?'')) = 5"
  using context_counts_stored_results [of env_sample P5 st5 "(9, 0)"
      "''How many rows are enriched?''"]
  by (simp add: st5_nonPending)
     (simp add: st5_results P5_def map_get_def result_at_def fe_def show_nat.simps
        template_string_def row_email_def truthy_string_def env_sample_def)

text \<open>
  In that state two rows have a result that is not pending, and \<open>processedRows\<close> is not
  2.
\<close>

theorem processedRows_counts_pending_counterexample:
  "spec_nonPendingRows P5 (results st5) = [0, 1]
   \<and> processedRows (req_context
        (chatRequest env_sample P5 st5 (9, 0) ''How many rows are enriched?'')) \<noteq> 2"
  by (simp add: st5_nonPending) (simp add: st5_results chatRequest_def map_size_def)

text \<open>
  Claim C8, as the code has it. The history sent with a query is built from the log the
  handler's closure holds, which is the log before the submitted user message is
  appended: the last 10 of its \<open>user\<close> and \<open>assistant\<close> messages, in order, each as a
  role and a content. The submitted message is appended to the log and is sent as the
  question, not as part of the history.
\<close>

theorem history_from_closure_log:
  "conversationHistory (fst (handleChatMessage env P now rnd msg resp st))
     = buildConversationHistory (agentMessages st)
   \<and> question (fst (handleChatMessage env P now rnd msg resp st)) = msg
   \<and> agentMessages (chatSubmit now rnd msg st) = agentMessages st @ [userMessage now msg]
   \<and> buildConversationHistory msgs =
       slice_last 10
         (map (\<lambda>m. (if mtype m = ''user'' then ''user'' else ''assistant'', message m))
            (filter (\<lambda>m. mtype m = ''user'' \<or> mtype m = ''assistant'') msgs))
   \<and> length (buildConversationHistory msgs) \<le> 10"
  by (simp add: handleChatMessage_def chatRequest_def chatSubmit_def Let_def
        buildConversationHistory_def slice_last_def drop_map)

text \<open>
  A first query \<open>hi\<close> with a status line and the answer \<open>hello\<close>; the history of the
  second query holds the first exchange and not the second question.
\<close>

theorem history_from_closure_log_witness:
  "conversationHistory (fst (handleChatMessage env_sample P0 5 0 ''and now?''
      (ChatOpened [] ChatDone)
      (run P0 initial_state [ChatSubmit 1 0 ''hi'', ChatEvent 2 0 (StatusEv ''searching'' None),
         ChatEvent 3 0 (ResponseEv ''hello''), ChatFinally])))
     = [(''user'', ''hi''), (''assistant'', ''hello'')]"
  using history_from_closure_log [of env_sample P0 5 0 "''and now?''" "ChatOpened [] ChatDone"
      "run P0 initial_state [ChatSubmit 1 0 ''hi'', ChatEvent 2 0 (StatusEv ''searching'' None),
         ChatEvent 3 0 (ResponseEv ''hello''), ChatFinally]" "[]"]
  by (simp add: run_def initial_state_def chatSubmit_def chatFinally_def userMessage_def
        buildConversationHistory_def slice_last_def)

text \<open>
  The first query on an empty log: the history sent is empty, while the last 10 turns of
  the log after the append hold the submitted message.
\<close>

theorem history_excludes_submitted_message_counterexample:
  "conversationHistory (fst (handleChatMessage env_sample P0 5 0 ''hi''
      (ChatOpened [] ChatDone) initial_state))
   \<noteq> buildConversationHistory (agentMessages (chatSubmit 5 0 ''hi'' initial_state))"
  by (simp add: handleChatMessage_def chatRequest_def chatSubmit_def Let_def userMessage_def
        buildConversationHistory_def slice_last_def initial_state_def)

text \<open>
  Claim C10. Let row \<open>i\<close> have a stored result that is not pending. The row's
  serialized entry, which is its line in the snapshot sent with the query, is the row's
  number and email followed by the key and JSON text of exactly the enrichments that
  are kept, in order, or by \<open>No data enriched yet\<close> when none is kept. Every kept
  enrichment has a truthy value; an enrichment whose value is \<open>false\<close>, the empty
  string, 0 or \<open>null\<close> is not kept; an enrichment with a truthy value is kept (unless
  its key is \<open>__proto__\<close>). The row is among the rows listed, so that when all its
  values are falsy it still appears, with \<open>No data enriched yet\<close>.
\<close>

theorem snapshot_omits_falsy_values:
  fixes env :: js_env and P :: props and st :: table_state and result :: row_result
  defines "kept \<equiv> \<lambda>r. filter (\<lambda>ke. truthy (fvalue (snd ke)) \<and> fst ke \<noteq> ''__proto__'')
                       (enrichments r)"
  defines "line \<equiv> \<lambda>j r. ''Row '' @ show_nat (j + 1) @ '' ('' @
                       template_string (row_email env P (rows P ! j)) @ ''): '' @
                       (if kept r = [] then ''No data enriched yet''
                        else join '', ''
                          (map (\<lambda>ke. fst ke @ '': '' @ stringify env (fvalue (snd ke))) (kept r)))"
  assumes "i < length (rows P)"
    and "map_get (int i) (results st) = Some result"
    and "rstatus result \<noteq> Pending"
  shows "tableDataRow env P (results st) (i, rows P ! i) = Some (line i result)
    \<and> i \<in> set (spec_nonPendingRows P (results st))
    \<and> tableData (req_context (chatRequest env P st q msg)) =
         ''Enriched Data Table:'' @ [CHR 0x0A] @
         join [CHR 0x0A]
           (map (\<lambda>j. line j (the (map_get (int j) (results st))))
              (spec_nonPendingRows P (results st))) @
         [CHR 0x0A, CHR 0x0A] @ ''Total: '' @
         show_nat (length (spec_nonPendingRows P (results st))) @ '' rows with data''
    \<and> (\<forall>ke \<in> set (kept result). truthy (fvalue (snd ke)) \<and> ke \<in> set (enrichments result))
    \<and> (\<forall>ke \<in> set (enrichments result).
          fvalue (snd ke) \<in> {VBool False, VStr [], VNum 0, VNull} \<longrightarrow> ke \<notin> set (kept result))
    \<and> (\<forall>ke \<in> set (enrichments result).
          truthy (fvalue (snd ke)) \<and> fst ke \<noteq> ''__proto__'' \<longrightarrow> ke \<in> set (kept result))
    \<and> (list_all (\<lambda>ke. \<not> truthy (fvalue (snd ke))) (enrichments result) \<longrightarrow>
          line i result = ''Row '' @ show_nat (i + 1) @ '' ('' @
            template_string (row_email env P (rows P ! i)) @ ''): No data enriched yet'')"
proof -
  have a: "tableDataRow env P (results st) (i, rows P ! i) = Some (line i result)"
    unfolding line_def kept_def using assms(4,5) by (rule tableDataRow_line)
  have b: "i \<in> set (spec_nonPendingRows P (results st))"
    using assms(3,4,5) by (simp add: spec_nonPendingRows_def)
  then have ne: "spec_nonPendingRows P (results st) \<noteq> []" by auto
  have c: "tableData (req_context (chatRequest env P st q msg)) =
         ''Enriched Data Table:'' @ [CHR 0x0A] @
         join [CHR 0x0A]
           (map (\<lambda>j. line j (the (map_get (int j) (results st))))
              (spec_nonPendingRows P (results st))) @
         [CHR 0x0A, CHR 0x0A] @ ''Total: '' @
         show_nat (length (spec_nonPendingRows P (results st))) @ '' rows with data''"
    unfolding line_def kept_def
    using tableDataString_lines [of env P "results st"] ne
    by (simp add: chatRequest_def)
  have d: "\<forall>ke \<in> set (kept result). truthy (fvalue (snd ke)) \<and> ke \<in> set (enrichments result)"
    by (simp add: kept_def)
  have e: "\<forall>ke \<in> set (enrichments result).
          fvalue (snd ke) \<in> {VBool False, VStr [], VNum 0, VNull} \<longrightarrow> ke \<notin> set (kept result)"
    by (auto simp: kept_def)
  have f: "\<forall>ke \<in> set (enrichments result).
          truthy (fvalue (snd ke)) \<and> fst ke \<noteq> ''__proto__'' \<longrightarrow> ke \<in> set (kept result)"
    by (simp add: kept_def)
  have g: "list_all (\<lambda>ke. \<not> truthy (fvalue (snd ke))) (enrichments result) \<longrightarrow>
          line i result = ''Row '' @ show_nat (i + 1) @ '' ('' @
            template_string (row_email env P (rows P ! i)) @ ''): No data enriched yet''"
    by (simp add: line_def kept_def filter_empty_conv list_all_iff)
  from a b c d e f g show ?thesis by blast
qed

lemma show_nat_small:
  "show_nat (Suc 0) = ''1''" "show_nat 1 = ''1''" "show_nat 2 = ''2''"
  by (simp_all add: show_nat.simps)

lemma sample_results:
  "results st_mixed = [(0, mixed_result)]" "results st_falsy = [(0, falsy_result)]"
  by (simp_all add: st_mixed_def st_falsy_def initial_state_def mixed_result_def
        falsy_result_def res0_def)

lemma sample_nonPending:
  "spec_nonPendingRows P0 [(0, mixed_result)] = [0]"
  "spec_nonPendingRows P0 [(0, falsy_result)] = [0]"
  by (simp_all add: spec_nonPendingRows_def P0_def map_get_def mixed_result_def
        falsy_result_def res0_def upt_rec)

text \<open>
  Row 0 is completed with a company name, a 0, an empty industry and a true flag: its
  line carries the company and the flag only. With an empty string, a 0, a \<open>false\<close>
  and a \<open>null\<close> its line is \<open>Row 1 (a@x.io): No data enriched yet\<close>.
\<close>

theorem snapshot_omits_falsy_values_witness:
  "tableData (req_context (chatRequest env_sample P0 st_mixed (9, 0) ''who?'')) =
     ''Enriched Data Table:'' @ [CHR 0x0A] @
     ''Row 1 (a@x.io): company: '' @ [CHR 0x22] @ ''X'' @ [CHR 0x22] @ '', isPublic: true'' @
     [CHR 0x0A, CHR 0x0A] @ ''Total: 1 rows with data''
   \<and> tableData (req_context (chatRequest env_sample P0 st_falsy (9, 0) ''who?'')) =
     ''Enriched Data Table:'' @ [CHR 0x0A] @
     ''Row 1 (a@x.io): No data enriched yet'' @
     [CHR 0x0A, CHR 0x0A] @ ''Total: 1 rows with data''"
proof -
  have rows0: "0 < length (rows P0)" by (simp add: P0_def)
  have m: "map_get (int 0) (results st_mixed) = Some mixed_result"
    by (simp add: map_get_def sample_results)
  have f: "map_get (int 0) (results st_falsy) = Some falsy_result"
    by (simp add: map_get_def sample_results)
  have mp: "rstatus mixed_result \<noteq> Pending" by (simp add: mixed_result_def res0_def)
  have fp: "rstatus falsy_result \<noteq> Pending" by (simp add: falsy_result_def res0_def)
  note tm = snapshot_omits_falsy_values [OF rows0 m mp, of env_sample "(9, 0)" "''who?''"]
  note tf = snapshot_omits_falsy_values [OF rows0 f fp, of env_sample "(9, 0)" "''who?''"]
  note em = tm [THEN conjunct2, THEN conjunct2, THEN conjunct1, unfolded sample_results sample_nonPending]
  note ef = tf [THEN conjunct2, THEN conjunct2, THEN conjunct1, unfolded sample_results sample_nonPending]
  show ?thesis
    unfolding em ef
    by (simp add: map_get_def P0_def mixed_result_def falsy_result_def res0_def fe_def
          show_nat_small template_string_def row_email_def row_member_def truthy_string_def
          env_sample_def)
qed

section \<open>Double-precision rounding\<close>

text \<open>
  The rounding of a positive number changes it by at most one part in \<open>2^53\<close>.
\<close>

lemma bit_length_bounds:
  "0 < n \<Longrightarrow> 2 ^ (bit_length n - 1) \<le> n \<and> n < 2 ^ bit_length n"
proof (induction n rule: bit_length.induct)
  case (1 n)
  show ?case
  proof (cases "n div 2 = 0")
    case True
    with "1.prems" have "n = 1" by (simp add: div_eq_0_iff) 
    then show ?thesis by (simp add: bit_length.simps)
  next
    case False
    then have pos: "0 < n div 2" by simp
    from "1.IH" [OF _ pos] "1.prems"
    have ih: "2 ^ (bit_length (n div 2) - 1) \<le> n div 2" "n div 2 < 2 ^ bit_length (n div 2)"
      by simp_all
    have bl: "bit_length n = Suc (bit_length (n div 2))"
      using "1.prems" by (subst bit_length.simps) simp
    have blpos: "0 < bit_length (n div 2)"
      using pos by (subst bit_length.simps) simp
    then have "(2::nat) ^ bit_length (n div 2) = 2 * 2 ^ (bit_length (n div 2) - 1)"
      by (cases "bit_length (n div 2)") simp_all
    then have "(2::nat) ^ (bit_length n - 1) \<le> 2 * (n div 2)"
      using ih(1) by (simp add: bl)
    moreover have "n < 2 * 2 ^ bit_length (n div 2)"
      using ih(2) by linarith
    ultimately show ?thesis by (simp add: bl)
  qed
qed

lemma pow2_powi: "pow2 k = 2 powi k"
  by (simp add: pow2_def power_int_def inverse_eq_divide power_one_over)

lemma pow2_pos: "0 < pow2 k"
  by (simp add: pow2_powi)

lemma binary_exponent_bounds:
  assumes "0 < x"
  shows "pow2 (binary_exponent x) \<le> x \<and> x < pow2 (binary_exponent x + 1)"
proof (cases "1 \<le> x")
  case True
  define n where "n = nat \<lfloor>x\<rfloor>"
  from True have npos: "0 < n" by (simp add: n_def) 
  have nx: "of_nat n \<le> x" "x < of_nat n + 1"
    using True by (simp_all add: n_def) linarith+
  from bit_length_bounds [OF npos]
  have b: "2 ^ (bit_length n - 1) \<le> n" "n < 2 ^ bit_length n" by simp_all
  have blpos: "0 < bit_length n" using npos by (subst bit_length.simps) simp
  have e: "binary_exponent x = int (bit_length n) - 1"
    using True by (simp add: binary_exponent_def n_def)
  have p1: "pow2 (int (bit_length n) - 1) = 2 ^ (bit_length n - 1)"
    using blpos by (simp add: pow2_def nat_diff_distrib')
  have p2: "pow2 (int (bit_length n) - 1 + 1) = 2 ^ bit_length n"
    by (simp add: pow2_def)
  have "(2::rat) ^ (bit_length n - 1) \<le> of_nat n"
    using b(1) by (metis of_nat_le_iff of_nat_numeral of_nat_power)
  moreover have "(of_nat n :: rat) + 1 \<le> 2 ^ bit_length n"
  proof -
    have "n + 1 \<le> 2 ^ bit_length n" using b(2) by simp
    then have "(of_nat (n + 1) :: rat) \<le> of_nat (2 ^ bit_length n)"
      by (simp only: of_nat_le_iff)
    then show ?thesis by simp
  qed
  ultimately show ?thesis
    using nx unfolding e p1 p2 by linarith
next
  case False
  with assms have x1: "x < 1" by simp
  define y where "y = 1 / x"
  have y1: "1 < y" using assms x1 by (simp add: y_def)
  define m where "m = nat (\<lceil>y\<rceil> - 1)"
  have my: "of_nat m < y" "y \<le> of_nat m + 1"
    using y1 by (simp_all add: m_def) linarith
  have mpos: "0 < m" using y1 by (simp add: m_def)
  from bit_length_bounds [OF mpos]
  have b: "2 ^ (bit_length m - 1) \<le> m" "m < 2 ^ bit_length m" by simp_all
  have blpos: "0 < bit_length m" using mpos by (subst bit_length.simps) simp
  have e: "binary_exponent x = - int (bit_length m)"
    using False by (simp add: binary_exponent_def m_def y_def)
  have p1: "pow2 (- int (bit_length m)) = 1 / 2 ^ bit_length m"
    using blpos by (simp add: pow2_def)
  have p2: "pow2 (- int (bit_length m) + 1) = 1 / 2 ^ (bit_length m - 1)"
    using blpos by (cases "bit_length m") (simp_all add: pow2_def)
  have lo: "(2::rat) ^ (bit_length m - 1) < y"
  proof -
    have "(2::rat) ^ (bit_length m - 1) \<le> of_nat m"
      using b(1) by (metis of_nat_le_iff of_nat_numeral of_nat_power)
    with my(1) show ?thesis by linarith
  qed
  have hi: "y \<le> 2 ^ bit_length m"
  proof -
    have "m + 1 \<le> 2 ^ bit_length m" using b(2) by simp
    then have "(of_nat (m + 1) :: rat) \<le> of_nat (2 ^ bit_length m)"
      by (simp only: of_nat_le_iff)
    with my(2) show ?thesis by simp
  qed
  have xy: "x = 1 / y" by (simp add: y_def)
  have ypos: "0 < y" using y1 by simp
  have "1 / 2 ^ bit_length m \<le> 1 / y"
    using hi ypos by (simp add: frac_le)
  moreover have "1 / y < 1 / 2 ^ (bit_length m - 1)"
    using lo by (simp add: frac_less2)
  ultimately have "pow2 (- int (bit_length m)) \<le> x \<and> x < pow2 (- int (bit_length m) + 1)"
    unfolding p1 p2 xy by simp
  then show ?thesis
    unfolding e .
qed

lemma round_half_even_error: "\<bar>of_int (round_half_even y) - y\<bar> \<le> 1 / 2"
proof -
  have lo: "of_int \<lfloor>y\<rfloor> \<le> y" and hi: "y < of_int \<lfloor>y\<rfloor> + 1"
    by linarith+
  show ?thesis
    unfolding round_half_even_def Let_def using lo hi by (auto simp: abs_le_iff)
qed

lemma round_double_error:
  assumes "0 < x"
  shows "\<bar>round_double x - x\<bar> \<le> x / 2 ^ 53"
proof -
  define e where "e = binary_exponent x - 52"
  have pe: "0 < pow2 e" by (rule pow2_pos)
  have rd: "round_double x = of_int (round_half_even (x / pow2 e)) * pow2 e"
    using assms by (simp add: round_double_def e_def Let_def)
  have "\<bar>round_double x - x\<bar> = \<bar>of_int (round_half_even (x / pow2 e)) - x / pow2 e\<bar> * pow2 e"
  proof -
    have "round_double x - x = (of_int (round_half_even (x / pow2 e)) - x / pow2 e) * pow2 e"
      using pe by (simp add: rd field_simps)
    then show ?thesis using pe by (simp add: abs_mult)
  qed
  also have "\<dots> \<le> 1 / 2 * pow2 e"
    using round_half_even_error [of "x / pow2 e"] pe by (simp add: mult_right_mono)
  also have "\<dots> = pow2 (binary_exponent x) / 2 ^ 53"
    by (simp add: e_def pow2_powi power_int_diff)
  also have "\<dots> \<le> x / 2 ^ 53"
    using binary_exponent_bounds [OF assms] by (simp add: divide_right_mono)
  finally show ?thesis .
qed

lemma round_double_zero: "round_double 0 = 0"
  by (simp add: round_double_def)

text \<open>
  The delay the code computes in doubles is within \<open>2^-40\<close> of the exact value of the
  formula.
\<close>

lemma delay_near_exact:
  assumes "i < n"
  shows "\<bar>fl_mul (of_nat i) (min 300 (fl_div 2000 (of_nat n)))
           - of_nat i * min 300 (2000 / of_nat n)\<bar> \<le> 1 / 2 ^ 40"
proof -
  define q :: rat where "q = 2000 / of_nat n"
  define d where "d = fl_div 2000 (of_nat n)"
  define m where "m = min 300 d"
  from assms have npos: "(0::rat) < of_nat n" by simp
  then have qpos: "0 < q" by (simp add: q_def)
  have dq: "\<bar>d - q\<bar> \<le> q / 2 ^ 53"
    unfolding d_def fl_div_def q_def [symmetric] using qpos by (rule round_double_error)
  have iq: "of_nat i * q \<le> 2000"
  proof -
    have "(of_nat i :: rat) \<le> of_nat n" using assms by simp
    then have "of_nat i * (2000 / of_nat n) \<le> of_nat n * (2000 / (of_nat n :: rat))"
      using npos by (intro mult_right_mono) simp_all
    also have "\<dots> = 2000" using npos by simp
    finally show ?thesis by (simp add: q_def)
  qed
  have ipos: "(0::rat) \<le> of_nat i" by simp
  have small: "q / 2 ^ 53 < q" using qpos by (simp add: field_simps)
  have dq': "\<bar>d - q\<bar> < q" using dq small by (rule le_less_trans)
  have d_le: "d \<le> 2 * q" using dq' by linarith
  have d_pos: "0 < d" using dq' by linarith
  have m_pos: "0 < m" using d_pos by (simp add: m_def)
  have m_le: "m \<le> 2 * q" using d_le by (simp add: m_def min_def)
  have mm: "\<bar>m - min 300 q\<bar> \<le> \<bar>d - q\<bar>"
    unfolding m_def min_def by (auto; linarith)
  have im: "of_nat i * m \<le> 4000"
  proof -
    have "of_nat i * m \<le> of_nat i * (2 * q)" using m_le ipos by (rule mult_left_mono)
    also have "\<dots> = 2 * (of_nat i * q)" by simp
    also have "\<dots> \<le> 4000" using iq by linarith
    finally show ?thesis .
  qed
  have p: "\<bar>fl_mul (of_nat i) m - of_nat i * m\<bar> \<le> of_nat i * m / 2 ^ 53"
  proof (cases "i = 0")
    case True
    then show ?thesis by (simp add: fl_mul_def round_double_zero)
  next
    case False
    then have "0 < of_nat i * m" using m_pos by simp
    then show ?thesis unfolding fl_mul_def by (rule round_double_error)
  qed
  have "\<bar>fl_mul (of_nat i) m - of_nat i * min 300 q\<bar>
          \<le> \<bar>fl_mul (of_nat i) m - of_nat i * m\<bar> + \<bar>of_nat i * m - of_nat i * min 300 q\<bar>"
    by linarith
  also have "\<bar>of_nat i * m - of_nat i * min 300 q\<bar> = of_nat i * \<bar>m - min 300 q\<bar>"
    by (simp add: right_diff_distrib [symmetric] abs_mult)
  also have "\<bar>fl_mul (of_nat i) m - of_nat i * m\<bar> + of_nat i * \<bar>m - min 300 q\<bar>
          \<le> of_nat i * m / 2 ^ 53 + of_nat i * (q / 2 ^ 53)"
  proof -
    have "of_nat i * \<bar>m - min 300 q\<bar> \<le> of_nat i * (q / 2 ^ 53)"
      using mm dq ipos by (intro mult_left_mono) simp_all
    with p show ?thesis by linarith
  qed
  also have "\<dots> = (of_nat i * m + of_nat i * q) / 2 ^ 53"
    by (simp add: add_divide_distrib)
  also have "\<dots> \<le> 8192 / 2 ^ 53"
    using im iq by (intro divide_right_mono) simp_all
  also have "\<dots> = 1 / 2 ^ 40" by simp
  finally show ?thesis by (simp add: m_def d_def q_def)
qed

text \<open>
  Values of the code's arithmetic: 2000 / 4 and 2 * 300 are exact; with 38 fields the
  delay at position 19 is the double below 1000, where the exact value of the formula
  is 1000.
\<close>

lemma double_500: "fl_div 2000 4 = 500"
  by code_simp

lemma double_600: "fl_mul 2 300 = 600"
  by code_simp

lemma double_38_19: "fl_mul 19 (min 300 (fl_div 2000 38)) = 1000 - 1 / 2 ^ 43"
  by code_simp

section \<open>Reveal timing of the cells\<close>

lemma step_cellsShown_mono: "cellsShown st \<subseteq> cellsShown (step P st a)"
  by (cases a)
     (auto simp: handleEvent_cellsShown timerTick_cellsShown handleChatEvent_cellsShown
        cancelEnrichment_def chatSubmit_def chatFailure_def chatFinally_def
        handleStopQuery_def Let_def)

lemma run_cellsShown_mono: "cellsShown st \<subseteq> cellsShown (run P st acts)"
  unfolding run_def
proof (induction acts arbitrary: st)
  case Nil
  show ?case by simp
next
  case (Cons a acts)
  have "cellsShown st \<subseteq> cellsShown (step P st a)" by (rule step_cellsShown_mono)
  also have "\<dots> \<subseteq> cellsShown (foldl (step P) (step P st a) acts)" by (rule Cons.IH)
  finally show ?case by simp
qed

lemma run_row_shown: "row_shown P r st \<Longrightarrow> row_shown P r (run P st acts)"
  using run_cellsShown_mono [of st P acts] by (auto simp: row_shown_def list_all_iff)

text \<open>
  The invariant of a scheduled reveal: its callback is still to run, or the cells of
  its row are shown.
\<close>

lemma step_pending_or_shown:
  assumes "(d, r) \<in> set (timers st) \<or> row_shown P r st"
  shows "(d, r) \<in> set (timers (step P st a)) \<or> row_shown P r (step P st a)"
proof (cases "row_shown P r st")
  case True
  then have "row_shown P r (step P st a)"
    using step_cellsShown_mono [of st P a] by (auto simp: row_shown_def list_all_iff)
  then show ?thesis ..
next
  case False
  with assms have pend: "(d, r) \<in> set (timers st)" by simp
  show ?thesis
  proof (cases a)
    case (StreamEvent now rnd ev)
    with pend handleEvent_timers [of st P now rnd ev] show ?thesis by auto
  next
    case (TimerTick now)
    show ?thesis
    proof (cases "d \<le> now")
      case True
      with pend have "row_shown P r (timerTick P now st)"
        by (fastforce simp: row_shown_def list_all_iff timerTick_cellsShown)
      with TimerTick show ?thesis by simp
    next
      case False
      with pend TimerTick show ?thesis by (simp add: timerTick_timers)
    qed
  next
    case (ChatEvent now rnd ev)
    with pend show ?thesis by (simp add: handleChatEvent_timers)
  qed (use pend in \<open>simp_all add: cancelEnrichment_def chatSubmit_def chatFailure_def
        chatFinally_def handleStopQuery_def Let_def\<close>)
qed

lemma run_pending_or_shown:
  "(d, r) \<in> set (timers st) \<or> row_shown P r st \<Longrightarrow>
   (d, r) \<in> set (timers (run P st acts)) \<or> row_shown P r (run P st acts)"
  unfolding run_def
  by (induction acts arbitrary: st) (simp_all add: step_pending_or_shown)

lemma tick_shows_due_row:
  assumes "(d, r) \<in> set (timers st) \<or> row_shown P r st" and "d \<le> t"
  shows "row_shown P r (timerTick P t st)"
  using step_pending_or_shown [OF assms(1), of "TimerTick t"] assms(2)
  by (auto simp: timerTick_timers)

lemma result_row_shown_after_window:
  assumes "now + 2500 \<le> t"
  shows "row_shown P (rowIndex res)
           (run P (timerTick P t (run P (handleEvent P now rnd (ResultEv res) st) acts)) acts')"
proof -
  have "(now + 2500, rowIndex res) \<in> set (timers (handleEvent P now rnd (ResultEv res) st))"
    by simp
  then have "(now + 2500, rowIndex res)
        \<in> set (timers (run P (handleEvent P now rnd (ResultEv res) st) acts))
      \<or> row_shown P (rowIndex res) (run P (handleEvent P now rnd (ResultEv res) st) acts)"
    by (intro run_pending_or_shown) simp
  then have "row_shown P (rowIndex res)
      (timerTick P t (run P (handleEvent P now rnd (ResultEv res) st) acts))"
    using assms by (rule tick_shows_due_row)
  then show ?thesis by (rule run_row_shown)
qed

text \<open>
  On a run none of whose clock readings is 0 no recorded arrival time is 0.
\<close>

lemma map_set_entries: "set (map_set k v m) \<subseteq> insert (k, v) (set m)"
  by (induction m) auto

lemma revealRows_arrival:
  "rowDataArrivalTime (foldl (revealRow P) st rs) = rowDataArrivalTime st"
  by (induction rs arbitrary: st) (simp_all add: revealRow_def)

lemma timerTick_arrival: "rowDataArrivalTime (timerTick P now st) = rowDataArrivalTime st"
  by (simp add: timerTick_def revealRows_arrival)

lemma handleChatEvent_arrival:
  "rowDataArrivalTime (handleChatEvent now rnd ev st) = rowDataArrivalTime st"
  by (cases ev) simp_all

lemma handleEvent_arrival_nonzero:
  assumes "now \<noteq> 0" and "\<forall>kv \<in> set (rowDataArrivalTime st). snd kv \<noteq> 0"
  shows "\<forall>kv \<in> set (rowDataArrivalTime (handleEvent P now rnd ev st)). snd kv \<noteq> 0"
proof (cases ev)
  case (ResultEv res)
  show ?thesis
    using assms map_set_entries [of "rowIndex res" now "rowDataArrivalTime st"]
    by (auto simp: ResultEv)
qed (use assms(2) in simp_all)

lemma step_arrival_nonzero:
  assumes "case action_clock a of None \<Rightarrow> True | Some t \<Rightarrow> t \<noteq> 0"
    and "\<forall>kv \<in> set (rowDataArrivalTime st). snd kv \<noteq> 0"
  shows "\<forall>kv \<in> set (rowDataArrivalTime (step P st a)). snd kv \<noteq> 0"
proof (cases a)
  case (StreamEvent now rnd ev)
  with assms(1) have "now \<noteq> 0" by simp
  then show ?thesis
    unfolding StreamEvent step.simps using assms(2) by (rule handleEvent_arrival_nonzero)
qed (use assms(2) in \<open>simp_all add: timerTick_arrival handleChatEvent_arrival
      cancelEnrichment_def chatSubmit_def chatFailure_def chatFinally_def
      handleStopQuery_def Let_def\<close>)

lemma run_arrival_nonzero:
  "real_clocks acts \<Longrightarrow> \<forall>kv \<in> set (rowDataArrivalTime st). snd kv \<noteq> 0 \<Longrightarrow>
   \<forall>kv \<in> set (rowDataArrivalTime (run P st acts)). snd kv \<noteq> 0"
  unfolding run_def real_clocks_def
proof (induction acts arbitrary: st)
  case Nil
  then show ?case by simp
next
  case (Cons a acts)
  from Cons.prems have a: "case action_clock a of None \<Rightarrow> True | Some t \<Rightarrow> t \<noteq> 0"
    and rest: "list_all (\<lambda>a. case action_clock a of None \<Rightarrow> True | Some t \<Rightarrow> t \<noteq> 0) acts"
    by simp_all
  have "\<forall>kv \<in> set (rowDataArrivalTime (step P st a)). snd kv \<noteq> 0"
    using a Cons.prems(2) by (rule step_arrival_nonzero)
  with rest show ?case
    using Cons.IH [of "step P st a"] by simp
qed

lemma reachable_arrival_nonzero:
  assumes "real_clocks acts"
    and "map_get r (rowDataArrivalTime (run P initial_state acts)) = Some T"
  shows "T \<noteq> 0"
proof -
  have "\<forall>kv \<in> set (rowDataArrivalTime (run P initial_state acts)). snd kv \<noteq> 0"
    using assms(1) by (rule run_arrival_nonzero) (simp add: initial_state_def)
  moreover have "(r, T) \<in> set (rowDataArrivalTime (run P initial_state acts))"
    using assms(2) by (simp add: map_get_def map_of_SomeD)
  ultimately show ?thesis by fastforce
qed

lemma delay_formula:
  "map_get r (rowDataArrivalTime st) = Some T \<Longrightarrow> T \<noteq> 0 \<Longrightarrow> 0 < length (fieldsP P) \<Longrightarrow>
   getCellAnimationDelay P st r i
     = fl_mul (of_nat i) (min 300 (fl_div 2000 (of_nat (length (fieldsP P)))))"
  by (simp add: getCellAnimationDelay_def delayPerCell_def)

lemma no_arrival_no_delay:
  "map_get r (rowDataArrivalTime st) = None \<or> map_get r (rowDataArrivalTime st) = Some 0 \<Longrightarrow>
   getCellAnimationDelay P st r i = 0 \<and> \<not> cellHidden P st now r i fname"
  by (auto simp: getCellAnimationDelay_def cellHidden_def shouldAnimate_def)

lemma window_over_not_hidden:
  "map_get r (rowDataArrivalTime st) = Some T \<Longrightarrow> T + 2500 \<le> now \<Longrightarrow>
   \<not> cellHidden P st now r i fname"
  by (simp add: cellHidden_def shouldAnimate_def)

text \<open>
  Claim C9. Let \<open>i\<close> be the position of a field among the requested fields, and let
  the state be reached from the initial state by handlers none of whose clock readings
  is 0, as no reading of \<open>Date.now()\<close> is. For a row with a recorded arrival time the
  delay of the cell is \<open>i * min(300, 2000 / fieldCount)\<close>, the quotient and the product
  being those of double-precision arithmetic as in the code; it is within \<open>2^-40\<close> of
  the exact value of that formula, and it is 600 for four fields and position 2. In
  any state, for a row with no recorded arrival time (or with the time 0, which the
  code's test takes for none) the delay is 0 and the cell is not drawn as a
  placeholder, and once \<open>T + 2500\<close> is reached no cell of the row is drawn as a
  placeholder. Once the timer service has run at or after \<open>T + 2500\<close>, where \<open>T\<close> is
  the clock reading at which the \<open>result\<close> event was handled, the cell is in
  \<open>cellsShown\<close> and stays there, whatever handlers run before and after.
\<close>

theorem reveal_timing:
  assumes "i < length (fieldsP P)"
  shows "(real_clocks acts0 \<and> map_get r (rowDataArrivalTime (run P initial_state acts0)) = Some T \<longrightarrow>
            getCellAnimationDelay P (run P initial_state acts0) r i
              = fl_mul (of_nat i) (min 300 (fl_div 2000 (of_nat (length (fieldsP P)))))
            \<and> \<bar>getCellAnimationDelay P (run P initial_state acts0) r i
                 - of_nat i * min 300 (2000 / of_nat (length (fieldsP P)))\<bar> \<le> 1 / 2 ^ 40)
    \<and> (real_clocks acts0 \<and> map_get r (rowDataArrivalTime (run P initial_state acts0)) = Some T
          \<and> length (fieldsP P) = 4 \<and> i = 2 \<longrightarrow>
            getCellAnimationDelay P (run P initial_state acts0) r i = 600)
    \<and> (map_get r (rowDataArrivalTime st) = None \<or> map_get r (rowDataArrivalTime st) = Some 0 \<longrightarrow>
            getCellAnimationDelay P st r i = 0 \<and> \<not> cellHidden P st now r i fname)
    \<and> (map_get r (rowDataArrivalTime st) = Some T \<and> T + 2500 \<le> now \<longrightarrow>
            \<not> cellHidden P st now r i fname)
    \<and> (T + 2500 \<le> t \<longrightarrow>
          (rowIndex res, name (fieldsP P ! i)) \<in> cellsShown
             (run P (timerTick P t (run P (handleEvent P T rnd (ResultEv res) st0) acts)) acts'))"
proof -
  from assms have pos: "0 < length (fieldsP P)" by (cases "fieldsP P") simp_all
  have a: "real_clocks acts0 \<and> map_get r (rowDataArrivalTime (run P initial_state acts0)) = Some T \<longrightarrow>
            getCellAnimationDelay P (run P initial_state acts0) r i
              = fl_mul (of_nat i) (min 300 (fl_div 2000 (of_nat (length (fieldsP P)))))
            \<and> \<bar>getCellAnimationDelay P (run P initial_state acts0) r i
                 - of_nat i * min 300 (2000 / of_nat (length (fieldsP P)))\<bar> \<le> 1 / 2 ^ 40"
  proof
    assume h: "real_clocks acts0 \<and>
      map_get r (rowDataArrivalTime (run P initial_state acts0)) = Some T"
    then have "T \<noteq> 0" using reachable_arrival_nonzero by blast
    with h pos have eq: "getCellAnimationDelay P (run P initial_state acts0) r i
        = fl_mul (of_nat i) (min 300 (fl_div 2000 (of_nat (length (fieldsP P)))))"
      by (simp add: delay_formula)
    show "getCellAnimationDelay P (run P initial_state acts0) r i
              = fl_mul (of_nat i) (min 300 (fl_div 2000 (of_nat (length (fieldsP P)))))
            \<and> \<bar>getCellAnimationDelay P (run P initial_state acts0) r i
                 - of_nat i * min 300 (2000 / of_nat (length (fieldsP P)))\<bar> \<le> 1 / 2 ^ 40"
      unfolding eq using delay_near_exact [OF assms] by simp
  qed
  have b: "real_clocks acts0 \<and> map_get r (rowDataArrivalTime (run P initial_state acts0)) = Some T
          \<and> length (fieldsP P) = 4 \<and> i = 2 \<longrightarrow>
            getCellAnimationDelay P (run P initial_state acts0) r i = 600"
  proof
    assume h: "real_clocks acts0 \<and>
      map_get r (rowDataArrivalTime (run P initial_state acts0)) = Some T
      \<and> length (fieldsP P) = 4 \<and> i = 2"
    then have "T \<noteq> 0" using reachable_arrival_nonzero by blast
    with h show "getCellAnimationDelay P (run P initial_state acts0) r i = 600"
      by (simp add: getCellAnimationDelay_def delayPerCell_def double_500 double_600)
  qed
  have c: "map_get r (rowDataArrivalTime st) = None \<or> map_get r (rowDataArrivalTime st) = Some 0 \<longrightarrow>
            getCellAnimationDelay P st r i = 0 \<and> \<not> cellHidden P st now r i fname"
    using no_arrival_no_delay by blast
  have d: "map_get r (rowDataArrivalTime st) = Some T \<and> T + 2500 \<le> now \<longrightarrow>
            \<not> cellHidden P st now r i fname"
    using window_over_not_hidden by blast
  have e: "T + 2500 \<le> t \<longrightarrow>
          (rowIndex res, name (fieldsP P ! i)) \<in> cellsShown
             (run P (timerTick P t (run P (handleEvent P T rnd (ResultEv res) st0) acts)) acts')"
  proof
    assume "T + 2500 \<le> t"
    then have "row_shown P (rowIndex res)
        (run P (timerTick P t (run P (handleEvent P T rnd (ResultEv res) st0) acts)) acts')"
      by (rule result_row_shown_after_window)
    with assms show "(rowIndex res, name (fieldsP P ! i)) \<in> cellsShown
        (run P (timerTick P t (run P (handleEvent P T rnd (ResultEv res) st0) acts)) acts')"
      by (simp add: row_shown_def list_all_length)
  qed
  from a b c d e show ?thesis by blast
qed

text \<open>
  Four fields, a result for row 0 handled at clock reading 1000: the delay of the cell
  at position 2 is 600, at 3500 the cell is not drawn as a placeholder, and after a
  \<open>processing\<close> event and the timer service at 3500 the cell is shown. Before any
  result the delay is 0 and the cell is not drawn as a placeholder.
\<close>

theorem reveal_timing_witness:
  "getCellAnimationDelay P4
      (run P4 initial_state [StreamEvent 1000 0 (ResultEv (res0 [] Completed))]) 0 2 = 600
   \<and> \<not> cellHidden P4
        (run P4 initial_state [StreamEvent 1000 0 (ResultEv (res0 [] Completed))])
        3500 0 2 ''employees''
   \<and> (0, ''employees'') \<in> cellsShown
        (run P4 (timerTick P4 3500
           (run P4 (handleEvent P4 1000 0 (ResultEv (res0 [] Completed)) initial_state)
              [StreamEvent 1200 0 (ProcessingEv 1)])) [])
   \<and> getCellAnimationDelay P4 initial_state 0 2 = 0
   \<and> \<not> cellHidden P4 initial_state 1100 0 2 ''employees''"
proof -
  have i: "2 < length (fieldsP P4)" by (simp add: P4_def)
  have clocks: "real_clocks [StreamEvent 1000 0 (ResultEv (res0 [] Completed))]"
    by (simp add: real_clocks_def)
  have arrival: "map_get 0 (rowDataArrivalTime
      (run P4 initial_state [StreamEvent 1000 0 (ResultEv (res0 [] Completed))])) = Some 1000"
    by (simp add: run_def initial_state_def map_get_def res0_def)
  have none: "map_get 0 (rowDataArrivalTime initial_state) = None"
    by (simp add: initial_state_def map_get_def)
  have four: "length (fieldsP P4) = 4" by (simp add: P4_def)
  have field: "name (fieldsP P4 ! 2) = ''employees''" by (simp add: P4_def)
  have row: "rowIndex (res0 [] Completed) = 0" by (simp add: res0_def)
  note t1 = reveal_timing [OF i, where ?acts0.0 = "[StreamEvent 1000 0 (ResultEv (res0 [] Completed))]"
      and r = 0 and T = 1000 and now = 3500
      and st = "run P4 initial_state [StreamEvent 1000 0 (ResultEv (res0 [] Completed))]"
      and fname = "''employees''" and t = 3500 and res = "res0 [] Completed" and rnd = 0
      and ?st0.0 = initial_state and acts = "[StreamEvent 1200 0 (ProcessingEv 1)]"
      and acts' = "[]"]
  note t2 = reveal_timing [OF i, where r = 0 and st = initial_state and now = 1100
      and fname = "''employees''"]
  from t1 clocks arrival four have "getCellAnimationDelay P4
      (run P4 initial_state [StreamEvent 1000 0 (ResultEv (res0 [] Completed))]) 0 2 = 600"
    by blast
  moreover from t1 arrival have "\<not> cellHidden P4
        (run P4 initial_state [StreamEvent 1000 0 (ResultEv (res0 [] Completed))])
        3500 0 2 ''employees''"
    by simp
  moreover from t1 have "(0, ''employees'') \<in> cellsShown
        (run P4 (timerTick P4 3500
           (run P4 (handleEvent P4 1000 0 (ResultEv (res0 [] Completed)) initial_state)
              [StreamEvent 1200 0 (ProcessingEv 1)])) [])"
    by (simp add: field row)
  moreover from t2 none have "getCellAnimationDelay P4 initial_state 0 2 = 0
      \<and> \<not> cellHidden P4 initial_state 1100 0 2 ''employees''"
    by blast
  ultimately show ?thesis by blast
qed

end
